theory Spec2Isabelle
  imports Complex_Main "HOL-Library.Multiset"
begin

section \<open>Values of the JavaScript runtime\<close>

text \<open>
  The route handler reads JSON that arrives over the network (the request body, the
  backends' replies, the judges' replies), so its inputs are arbitrary JSON values.
  \<open>JUndefined\<close> is the value of a missing property. A number only matters through
  its truthiness (zero or not).

  A \<open>string\<close> is read as a sequence of UTF-16 code units below 256; every
  character the handler looks for (backtick, braces, white space) is of that kind.
\<close>

datatype jsval =
    JUndefined
  | JNull
  | JBool bool
  | JNum real
  | JStr string
  | JArr "jsval list"
  | JObj "(string \<times> jsval) list"

datatype error = TypeError | NetworkError | SyntaxError

fun truthy :: "jsval \<Rightarrow> bool" where
  "truthy JUndefined = False"
| "truthy JNull = False"
| "truthy (JBool b) = b"
| "truthy (JNum r) = (r \<noteq> 0)"
| "truthy (JStr s) = (s \<noteq> [])"
| "truthy (JArr xs) = True"
| "truthy (JObj kvs) = True"

text \<open>
  \<open>own_prop v k\<close> is \<open>v?.k\<close> for a property name \<open>k\<close> that no built-in prototype
  defines (\<open>choices\<close>, \<open>message\<close>, \<open>content\<close>, \<open>model\<close>, \<open>role\<close>, \<open>messages\<close>,
  \<open>activeModels\<close>, \<open>winner_model_id\<close>, \<open>reasoning\<close>: all the names the handler reads
  from parsed JSON): the own property of an object, \<open>undefined\<close> on anything else.
  \<open>member_of v k\<close> is \<open>v.k\<close>, which throws on \<open>null\<close> and \<open>undefined\<close>.
  \<open>first_elem v\<close> is \<open>v?.[0]\<close>.
\<close>

fun own_prop :: "jsval \<Rightarrow> string \<Rightarrow> jsval" where
  "own_prop (JObj kvs) k = (case map_of kvs k of Some v \<Rightarrow> v | None \<Rightarrow> JUndefined)"
| "own_prop v k = JUndefined"

definition member_of :: "jsval \<Rightarrow> string \<Rightarrow> error + jsval" where
  "member_of v k = (if v = JUndefined \<or> v = JNull then Inl TypeError else Inr (own_prop v k))"

fun first_elem :: "jsval \<Rightarrow> jsval" where
  "first_elem (JArr xs) = (case xs of [] \<Rightarrow> JUndefined | x # rest \<Rightarrow> x)"
| "first_elem (JStr s) = (case s of [] \<Rightarrow> JUndefined | c # rest \<Rightarrow> JStr [c])"
| "first_elem (JObj kvs) = own_prop (JObj kvs) ''0''"
| "first_elem v = JUndefined"

fun is_array :: "jsval \<Rightarrow> bool" where
  "is_array (JArr xs) = True"
| "is_array v = False"

section \<open>String operations\<close>

definition is_ws :: "char \<Rightarrow> bool" where
  "is_ws c = (c \<in> set [CHR 0x09, CHR 0x0A, CHR 0x0B, CHR 0x0C, CHR 0x0D, CHR 0x20, CHR 0xA0])"

definition trim :: "string \<Rightarrow> string" where
  "trim s = rev (dropWhile is_ws (rev (dropWhile is_ws s)))"

definition startsWith :: "string \<Rightarrow> string \<Rightarrow> bool" where
  "startsWith s p = (take (length p) s = p)"

fun indexOf :: "string \<Rightarrow> char \<Rightarrow> nat option" where
  "indexOf [] c = None"
| "indexOf (x # xs) c = (if x = c then Some 0 else map_option Suc (indexOf xs c))"

definition lastIndexOf :: "string \<Rightarrow> char \<Rightarrow> nat option" where
  "lastIndexOf s c = map_option (\<lambda>i. length s - 1 - i) (indexOf (rev s) c)"

text \<open>\<open>slice s a b\<close> is \<open>s.slice(a, b)\<close> for non-negative \<open>a\<close> and \<open>b\<close>: empty when \<open>b \<le> a\<close>.\<close>

definition slice :: "string \<Rightarrow> nat \<Rightarrow> nat \<Rightarrow> string" where
  "slice s a b = take (b - a) (drop a s)"

definition fence :: string where
  "fence = [CHR 0x60, CHR 0x60, CHR 0x60]"

text \<open>Lines 152-159: the text handed to \<open>JSON.parse\<close>, from the judge's reply content.\<close>

definition strip_fence :: "string \<Rightarrow> string" where
  "strip_fence text0 =
     (if startsWith text0 fence then
        (case indexOf text0 CHR ''{'' of
           None \<Rightarrow> text0
         | Some firstBrace \<Rightarrow>
             (case lastIndexOf text0 CHR ''}'' of
                None \<Rightarrow> text0
              | Some lastBrace \<Rightarrow> slice text0 firstBrace (lastBrace + 1)))
      else text0)"

definition judge_text :: "string \<Rightarrow> string" where
  "judge_text content0 = strip_fence (trim content0)"

section \<open>Candidate answers (lines 54-76)\<close>

record ModelAnswer =
  index :: nat
  model :: string
  content :: string

text \<open>
  The callback of \<open>choices.map\<close>. \<open>ser\<close> is \<open>JSON.stringify\<close> on the values it
  turns into a string; on \<open>undefined\<close> it returns \<open>undefined\<close>, so the content of
  the answer is then missing (\<open>None\<close>).
\<close>

definition to_answer :: "(jsval \<Rightarrow> string) \<Rightarrow> nat \<times> jsval \<Rightarrow> (nat \<times> string \<times> string option) option" where
  "to_answer ser ic =
     (case own_prop (snd ic) ''model'' of
        JStr m \<Rightarrow>
          (if m = [] \<or> \<not> truthy (own_prop (snd ic) ''message'') then None
           else (case own_prop (own_prop (snd ic) ''message'') ''content'' of
                   JStr s \<Rightarrow> Some (fst ic, m, Some s)
                 | JUndefined \<Rightarrow> Some (fst ic, m, None)
                 | JNull \<Rightarrow> Some (fst ic, m, Some (ser JNull))
                 | JBool b \<Rightarrow> Some (fst ic, m, Some (ser (JBool b)))
                 | JNum r \<Rightarrow> Some (fst ic, m, Some (ser (JNum r)))
                 | JArr xs \<Rightarrow> Some (fst ic, m, Some (ser (JArr xs)))
                 | JObj kvs \<Rightarrow> Some (fst ic, m, Some (ser (JObj kvs)))))
      | JUndefined \<Rightarrow> None
      | JNull \<Rightarrow> None
      | JBool b \<Rightarrow> None
      | JNum r \<Rightarrow> None
      | JArr xs \<Rightarrow> None
      | JObj kvs \<Rightarrow> None)"

text \<open>
  The callback of \<open>.filter\<close>: \<open>a !== null && a.content.trim().length > 0\<close>. Reading
  \<open>trim\<close> off a missing content throws a TypeError.
\<close>

fun keep_answers :: "(nat \<times> string \<times> string option) option list \<Rightarrow> error + ModelAnswer list" where
  "keep_answers [] = Inr []"
| "keep_answers (None # rest) = keep_answers rest"
| "keep_answers (Some (i, m, None) # rest) = Inl TypeError"
| "keep_answers (Some (i, m, Some s) # rest) =
     (case keep_answers rest of
        Inl e \<Rightarrow> Inl e
      | Inr kept \<Rightarrow>
          Inr (if trim s \<noteq> [] then \<lparr>index = i, model = m, content = s\<rparr> # kept else kept))"

definition answers_of :: "(jsval \<Rightarrow> string) \<Rightarrow> jsval list \<Rightarrow> error + ModelAnswer list" where
  "answers_of ser choices = keep_answers (map (to_answer ser) (enumerate 0 choices))"

section \<open>The score object (lines 78-81, 181-183, 202)\<close>

text \<open>
  \<open>globalScores\<close> is a plain object used as a map from model id to number. Its own
  properties are kept in creation order. A value is a count of votes, or
  \<open>Tainted n\<close>: the string that \<open>+= 1\<close> makes of a function inherited from
  \<open>Object.prototype\<close> (its source text followed by \<open>n\<close> characters \<open>1\<close>).
\<close>

datatype score = Votes nat | Tainted nat

type_synonym scores = "(string \<times> score) list"

text \<open>The function-valued properties every plain object inherits.\<close>

definition proto_methods :: "string list" where
  "proto_methods =
     [''constructor'', ''hasOwnProperty'', ''isPrototypeOf'', ''propertyIsEnumerable'',
      ''toLocaleString'', ''toString'', ''valueOf'', ''__defineGetter__'',
      ''__defineSetter__'', ''__lookupGetter__'', ''__lookupSetter__'']"

fun put :: "scores \<Rightarrow> string \<Rightarrow> score \<Rightarrow> scores" where
  "put [] k v = [(k, v)]"
| "put (p # ps) k v = (if fst p = k then (k, v) # ps else p # put ps k v)"

text \<open>
  \<open>obj[k] = v\<close> for a primitive \<open>v\<close>: the inherited setter of \<open>__proto__\<close>
  swallows the assignment, any other name becomes (or stays) an own property.
\<close>

definition assign :: "scores \<Rightarrow> string \<Rightarrow> score \<Rightarrow> scores" where
  "assign sc k v = (if k = ''__proto__'' then sc else put sc k v)"

definition init_scores :: "ModelAnswer list \<Rightarrow> scores" where
  "init_scores answers = foldl (\<lambda>sc a. assign sc (model a) (Votes 0)) [] answers"

text \<open>\<open>globalScores[k] != null\<close>: an own or an inherited property.\<close>

definition has_value :: "scores \<Rightarrow> string \<Rightarrow> bool" where
  "has_value sc k = (map_of sc k \<noteq> None \<or> k \<in> set proto_methods \<or> k = ''__proto__'')"

text \<open>
  \<open>globalScores[k] += 1\<close> where \<open>has_value sc k\<close>: an own count goes up by one; an
  inherited function plus one is a string, stored as a new own property; the sum read
  off \<open>__proto__\<close> is a string that its setter swallows.
\<close>

definition increment :: "scores \<Rightarrow> string \<Rightarrow> scores" where
  "increment sc k =
     (case map_of sc k of
        Some (Votes n) \<Rightarrow> assign sc k (Votes (n + 1))
      | Some (Tainted n) \<Rightarrow> assign sc k (Tainted (n + 1))
      | None \<Rightarrow> (if k \<in> set proto_methods then assign sc k (Tainted 1) else sc))"

text \<open>Lines 181-183.\<close>

definition cast_vote :: "scores \<Rightarrow> string option \<Rightarrow> scores" where
  "cast_vote sc voted =
     (case voted of
        None \<Rightarrow> sc
      | Some k \<Rightarrow> (if k \<noteq> [] \<and> has_value sc k then increment sc k else sc))"

text \<open>
  \<open>Object.entries\<close>: the own properties whose name is an array index (the canonical
  decimal numeral of a number below \<open>2^32 - 1\<close>) in ascending numeric order, then the
  others in creation order.
\<close>

definition is_digit :: "char \<Rightarrow> bool" where
  "is_digit c = (48 \<le> (of_char c :: nat) \<and> (of_char c :: nat) \<le> 57)"

definition digits_value :: "string \<Rightarrow> nat" where
  "digits_value s = foldl (\<lambda>n c. 10 * n + (of_char c - 48)) 0 s"

definition array_index :: "string \<Rightarrow> nat option" where
  "array_index s =
     (if s \<noteq> [] \<and> list_all is_digit s \<and> (s = ''0'' \<or> hd s \<noteq> CHR ''0'')
         \<and> digits_value s < 4294967295
      then Some (digits_value s) else None)"

definition index_rank :: "string \<times> score \<Rightarrow> nat" where
  "index_rank e = (case array_index (fst e) of Some n \<Rightarrow> n | None \<Rightarrow> 0)"

definition entries :: "scores \<Rightarrow> (string \<times> score) list" where
  "entries sc =
     sort_key index_rank (filter (\<lambda>e. array_index (fst e) \<noteq> None) sc)
     @ filter (\<lambda>e. array_index (fst e) = None) sc"

section \<open>Winner selection (lines 200-212)\<close>

text \<open>
  The loop over the entries, with the state \<open>(winnerModelId, bestScore)\<close>. A tainted
  value converts to NaN, and \<open>NaN > bestScore\<close> is false.
\<close>

fun pick_winner :: "(string \<times> score) list \<Rightarrow> string option \<times> int \<Rightarrow> string option \<times> int" where
  "pick_winner [] acc = acc"
| "pick_winner ((modelId, Votes n) # es) (w, bestScore) =
     (if int n > bestScore then pick_winner es (Some modelId, int n)
      else pick_winner es (w, bestScore))"
| "pick_winner ((modelId, Tainted n) # es) (w, bestScore) = pick_winner es (w, bestScore)"

definition winner_index :: "ModelAnswer list \<Rightarrow> string option \<Rightarrow> nat option" where
  "winner_index answers w =
     (case w of
        None \<Rightarrow> None
      | Some k \<Rightarrow> map_option index (find (\<lambda>a. model a = k) answers))"

section \<open>Judges (lines 83-198)\<close>

record JudgeVote =
  judgeModelId :: string
  votedModelId :: "string option"
  reasoning :: "string option"

text \<open>
  What \<open>fetch\<close> gives: a rejected promise, or a response with its \<open>ok\<close> flag, its
  status, and what \<open>res.text()\<close> and \<open>res.json()\<close> give (\<open>None\<close> when they throw).
\<close>

record response =
  ok :: bool
  status :: nat
  body_text :: "string option"
  body_json :: "jsval option"

datatype fetched = Rejected | Resolved response

text \<open>
  Everything outside the handler: \<open>JSON.parse\<close> (\<open>None\<close> when it throws),
  \<open>JSON.stringify\<close>, the reply to each generation request (by model id) and to each
  judge request (by judge), and the order in which the judges' replies arrive.
\<close>

record world =
  JSON_parse :: "string \<Rightarrow> jsval option"
  JSON_stringify :: "jsval \<Rightarrow> string"
  generation :: "string \<Rightarrow> fetched"
  judgement :: "ModelAnswer \<Rightarrow> fetched"
  arrival :: "nat list"

text \<open>A judge request: the model asked, and the candidates its prompt lists (line 90).\<close>

record judge_request =
  asked :: string
  candidates :: "ModelAnswer list"

definition judge_request_of :: "ModelAnswer list \<Rightarrow> ModelAnswer \<Rightarrow> judge_request" where
  "judge_request_of answers judge =
     \<lparr>asked = model judge, candidates = filter (\<lambda>a. index a \<noteq> index judge) answers\<rparr>"

definition no_vote :: "ModelAnswer \<Rightarrow> JudgeVote" where
  "no_vote judge = \<lparr>judgeModelId = model judge, votedModelId = None, reasoning = None\<rparr>"

text \<open>\<open>json?.choices?.[0]?.message?.content\<close> (line 143).\<close>

definition reply_content :: "jsval \<Rightarrow> jsval" where
  "reply_content j = own_prop (own_prop (first_elem (own_prop j ''choices'')) ''message'') ''content''"

text \<open>Lines 172-179: the string field \<open>k\<close> of the parsed reply, if it has one.\<close>

definition string_field :: "jsval \<Rightarrow> string \<Rightarrow> string option" where
  "string_field parsed k =
     (if truthy parsed then (case own_prop parsed k of JStr s \<Rightarrow> Some s | JUndefined \<Rightarrow> None
        | JNull \<Rightarrow> None | JBool b \<Rightarrow> None | JNum r \<Rightarrow> None | JArr xs \<Rightarrow> None | JObj kvs \<Rightarrow> None)
      else None)"

text \<open>
  Lines 152-189, once the reply's content is known to be the string \<open>content0\<close>: the
  vote is counted and recorded, or the parse fails and a null vote is recorded.
\<close>

definition record_reply :: "world \<Rightarrow> ModelAnswer \<Rightarrow> string \<Rightarrow> scores \<times> JudgeVote list \<Rightarrow> scores \<times> JudgeVote list" where
  "record_reply w judge content0 st =
     (case JSON_parse w (judge_text content0) of
        None \<Rightarrow> (fst st, snd st @ [no_vote judge])
      | Some parsed \<Rightarrow>
          (cast_vote (fst st) (string_field parsed ''winner_model_id''),
           snd st @ [\<lparr>judgeModelId = model judge,
                      votedModelId = string_field parsed ''winner_model_id'',
                      reasoning = string_field parsed ''reasoning''\<rparr>]))"

text \<open>
  What one judge's callback does to \<open>(globalScores, judgesResults)\<close> once its reply
  has arrived (lines 134-195). Every failure ends in the push of a null vote.
\<close>

definition judge_done :: "world \<Rightarrow> scores \<times> JudgeVote list \<Rightarrow> ModelAnswer \<Rightarrow> scores \<times> JudgeVote list" where
  "judge_done w st judge =
     (case judgement w judge of
        Rejected \<Rightarrow> (fst st, snd st @ [no_vote judge])
      | Resolved res \<Rightarrow>
          (if \<not> ok res then (fst st, snd st @ [no_vote judge])
           else (case body_json res of
                   None \<Rightarrow> (fst st, snd st @ [no_vote judge])
                 | Some j \<Rightarrow>
                     (case reply_content j of
                        JStr content0 \<Rightarrow> record_reply w judge content0 st
                      | JUndefined \<Rightarrow> (fst st, snd st @ [no_vote judge])
                      | JNull \<Rightarrow> (fst st, snd st @ [no_vote judge])
                      | JBool b \<Rightarrow> (fst st, snd st @ [no_vote judge])
                      | JNum r \<Rightarrow> (fst st, snd st @ [no_vote judge])
                      | JArr xs \<Rightarrow> (fst st, snd st @ [no_vote judge])
                      | JObj kvs \<Rightarrow> (fst st, snd st @ [no_vote judge])))))"

text \<open>
  The judges run concurrently: all requests are sent in candidate order, and each
  callback finishes, in one uninterrupted step, when its reply arrives. \<open>schedule ks xs\<close>
  is the order of arrival: at each step the next number of \<open>ks\<close> picks one of the
  judges still waiting (dispatch order once \<open>ks\<close> is used up). Every order of arrival
  is \<open>schedule ks xs\<close> for some \<open>ks\<close>.
\<close>

definition remove_nth :: "nat \<Rightarrow> 'a list \<Rightarrow> 'a list" where
  "remove_nth i xs = take i xs @ drop (Suc i) xs"

function schedule :: "nat list \<Rightarrow> 'a list \<Rightarrow> 'a list" where
  "schedule ks [] = []"
| "schedule [] (x # xs) = x # xs"
| "schedule (k # ks) (x # xs) =
     (x # xs) ! (k mod length (x # xs)) # schedule ks (remove_nth (k mod length (x # xs)) (x # xs))"
  by pat_completeness auto
termination
  by (relation "measure (\<lambda>(ks, xs). length xs)") (auto simp: remove_nth_def)

section \<open>runCrossEvaluation (lines 45-220)\<close>

record CrossEvaluation =
  scores :: scores
  winnerModelId :: "string option"
  winnerIndex :: "nat option"
  judges :: "JudgeVote list"

text \<open>
  The result is the list of judge requests sent, and what the promise settles to:
  a thrown error, \<open>null\<close> (\<open>None\<close>) or the evaluation.
\<close>

definition evaluate_answers :: "world \<Rightarrow> ModelAnswer list \<Rightarrow> CrossEvaluation" where
  "evaluate_answers w answers =
     (let st = foldl (judge_done w) (init_scores answers, []) (schedule (arrival w) answers);
          win = fst (pick_winner (entries (fst st)) (None, - 1))
      in \<lparr>scores = fst st, winnerModelId = win, winnerIndex = winner_index answers win,
          judges = snd st\<rparr>)"

definition runCrossEvaluation ::
  "world \<Rightarrow> jsval list \<Rightarrow> string option \<Rightarrow> judge_request list \<times> (error + CrossEvaluation option)" where
  "runCrossEvaluation w choices userQuestion =
     (if userQuestion = None \<or> userQuestion = Some [] \<or> length choices < 2 then ([], Inr None)
      else (case answers_of (JSON_stringify w) choices of
              Inl e \<Rightarrow> ([], Inl e)
            | Inr answers \<Rightarrow>
                (if length answers < 2 then ([], Inr None)
                 else (map (judge_request_of answers) answers,
                       Inr (Some (evaluate_answers w answers))))))"

section \<open>The POST handler (lines 222-445)\<close>

definition NVIDIA_MODEL :: string where "NVIDIA_MODEL = ''nvidia/nemotron-3-nano-30b-a3b:free''"
definition MISTRAL_MODEL :: string where "MISTRAL_MODEL = ''mistralai/devstral-2512:free''"
definition MOLMO_MODEL :: string where "MOLMO_MODEL = ''allenai/molmo-2-8b:free''"
definition TNG_MODEL :: string where "TNG_MODEL = ''tngtech/tng-r1t-chimera:free''"
definition GEMMA_MODEL :: string where "GEMMA_MODEL = ''google/gemma-3n-e4b-it:free''"
definition MIMO_MODEL :: string where "MIMO_MODEL = ''xiaomi/mimo-v2-flash:free''"

record backend =
  modelId :: string
  label :: string

text \<open>
  The registry of lines 271-332. The payload each entry builds (the messages and the
  reasoning switch) is not modelled: no branch of the handler reads it.
\<close>

definition allModels :: "backend list" where
  "allModels =
     [\<lparr>modelId = NVIDIA_MODEL, label = ''nvidia''\<rparr>,
      \<lparr>modelId = MISTRAL_MODEL, label = ''mistral''\<rparr>,
      \<lparr>modelId = MOLMO_MODEL, label = ''molmo''\<rparr>,
      \<lparr>modelId = TNG_MODEL, label = ''tng''\<rparr>,
      \<lparr>modelId = GEMMA_MODEL, label = ''gemma''\<rparr>,
      \<lparr>modelId = MIMO_MODEL, label = ''mimo''\<rparr>]"

record model_status =
  was_ok :: bool
  http_status :: nat
  error_body :: "string option"

record completion =
  choices_sent :: "jsval list"
  raw_by_label :: "(string \<times> jsval) list"
  evaluation :: "CrossEvaluation option"
  modelStatuses :: "(string \<times> model_status) list"

datatype payload =
    ErrorBody string
  | ErrorDetails string "(string \<times> model_status) list"
  | Completed completion

text \<open>
  What the handler's promise settles to: a JSON response with its HTTP status, or an
  error thrown out of the handler.
\<close>

datatype http = Json nat payload | Unhandled error

datatype request = Generate string | Judge judge_request

text \<open>Lines 265-267: the strings of \<open>body.activeModels\<close>, when it is an array.\<close>

fun nonempty_strings :: "jsval list \<Rightarrow> string list" where
  "nonempty_strings [] = []"
| "nonempty_strings (JStr s # vs) = (if s \<noteq> [] then s # nonempty_strings vs else nonempty_strings vs)"
| "nonempty_strings (v # vs) = nonempty_strings vs"

text \<open>Lines 265-336: \<open>modelsToCall\<close>.\<close>

definition modelsToCall :: "jsval \<Rightarrow> backend list" where
  "modelsToCall body =
     (case own_prop body ''activeModels'' of
        JArr ms \<Rightarrow> filter (\<lambda>b. modelId b \<in> set (nonempty_strings ms)) allModels
      | JUndefined \<Rightarrow> allModels
      | JNull \<Rightarrow> allModels
      | JBool b \<Rightarrow> allModels
      | JNum r \<Rightarrow> allModels
      | JStr s \<Rightarrow> allModels
      | JObj kvs \<Rightarrow> allModels)"

text \<open>Lines 345-354: \<open>Promise.all\<close> over the fetches rejects when one of them does.\<close>

fun resolve_all :: "(backend \<times> fetched) list \<Rightarrow> error + (backend \<times> response) list" where
  "resolve_all [] = Inr []"
| "resolve_all ((b, Rejected) # rest) = Inl NetworkError"
| "resolve_all ((b, Resolved r) # rest) =
     (case resolve_all rest of Inl e \<Rightarrow> Inl e | Inr rs \<Rightarrow> Inr ((b, r) # rs))"

text \<open>Lines 366-385: the status entry of one response.\<close>

definition status_of :: "response \<Rightarrow> model_status" where
  "status_of r =
     (if ok r then \<lparr>was_ok = True, http_status = status r, error_body = None\<rparr>
      else \<lparr>was_ok = False, http_status = status r,
            error_body = (case body_text r of
                            None \<Rightarrow> None
                          | Some t \<Rightarrow> if t \<noteq> [] then Some t else None)\<rparr>)"

text \<open>
  Lines 400-413: the raw payloads by label and the choices, from the successful
  responses in order. \<open>res.json()\<close> may throw.
\<close>

fun collect_choices :: "(backend \<times> response) list \<Rightarrow> error + (string \<times> jsval) list \<times> jsval list" where
  "collect_choices [] = Inr ([], [])"
| "collect_choices ((b, r) # rest) =
     (case body_json r of
        None \<Rightarrow> Inl SyntaxError
      | Some data \<Rightarrow>
          (case collect_choices rest of
             Inl e \<Rightarrow> Inl e
           | Inr (raws, cs) \<Rightarrow>
               Inr ((label b, data) # raws,
                    (if truthy (own_prop (first_elem (own_prop data ''choices'')) ''message'')
                     then JObj [(''model'', JStr (modelId b)),
                                (''message'', own_prop (first_elem (own_prop data ''choices'')) ''message'')] # cs
                     else cs))))"

text \<open>\<open>rawByLabel[l] ?? null\<close>, where a later assignment to the same label wins.\<close>

definition raw_or_null :: "(string \<times> jsval) list \<Rightarrow> string \<Rightarrow> jsval" where
  "raw_or_null raws l =
     (case map_of (rev raws) l of None \<Rightarrow> JNull | Some v \<Rightarrow> if v = JUndefined then JNull else v)"

text \<open>
  Line 415: \<open>.find((m) => m.role === "user")\<close> over the reversed messages; reading
  \<open>role\<close> off a \<open>null\<close> element throws.
\<close>

fun find_user :: "jsval list \<Rightarrow> error + jsval option" where
  "find_user [] = Inr None"
| "find_user (m # ms) =
     (case member_of m ''role'' of
        Inl e \<Rightarrow> Inl e
      | Inr r \<Rightarrow> if r = JStr ''user'' then Inr (Some m) else find_user ms)"

text \<open>Lines 415-419: \<open>userQuestion\<close>.\<close>

definition userQuestion_of :: "jsval list \<Rightarrow> error + string option" where
  "userQuestion_of messages =
     (case find_user (rev messages) of
        Inl e \<Rightarrow> Inl e
      | Inr None \<Rightarrow> Inr None
      | Inr (Some lastUser) \<Rightarrow>
          (if truthy lastUser then
             (case own_prop lastUser ''content'' of
                JStr s \<Rightarrow> Inr (Some s)
              | JUndefined \<Rightarrow> Inr None
              | JNull \<Rightarrow> Inr None
              | JBool b \<Rightarrow> Inr None
              | JNum r \<Rightarrow> Inr None
              | JArr xs \<Rightarrow> Inr None
              | JObj kvs \<Rightarrow> Inr None)
           else Inr None))"

definition messages_required :: string where
  "messages_required = CHR 0x27 # ''messages'' @ CHR 0x27 # '' array is required''"

definition failed_call :: http where
  "failed_call = Json 500 (ErrorBody ''Failed to call OpenRouter API'')"

text \<open>
  Lines 356-437: what the handler does once every generation request has been
  answered. The first component is the list of judge requests it sends.
\<close>

definition respond :: "world \<Rightarrow> jsval list \<Rightarrow> (backend \<times> response) list \<Rightarrow> request list \<times> http" where
  "respond w messages responses =
     (if filter (\<lambda>br. ok (snd br)) responses = [] then
        ([], Json 502 (ErrorDetails ''OpenRouter API error''
                         (map (\<lambda>br. (modelId (fst br), status_of (snd br))) responses)))
      else (case collect_choices (filter (\<lambda>br. ok (snd br)) responses) of
              Inl e \<Rightarrow> ([], failed_call)
            | Inr rc \<Rightarrow>
                (case userQuestion_of messages of
                   Inl e \<Rightarrow> ([], failed_call)
                 | Inr q \<Rightarrow>
                     (case snd (runCrossEvaluation w (snd rc) q) of
                        Inl e \<Rightarrow> (map Judge (fst (runCrossEvaluation w (snd rc) q)), failed_call)
                      | Inr ev \<Rightarrow>
                          (map Judge (fst (runCrossEvaluation w (snd rc) q)),
                           Json 200 (Completed
                             \<lparr>choices_sent = snd rc,
                              raw_by_label = map (\<lambda>b. (label b, raw_or_null (fst rc) (label b))) allModels,
                              evaluation = ev,
                              modelStatuses = map (\<lambda>br. (modelId (fst br), status_of (snd br))) responses\<rparr>))))))"

text \<open>
  The handler. \<open>apiKey\<close> is the environment variable (\<open>None\<close> when unset), \<open>body\<close>
  what \<open>req.json()\<close> gives (\<open>None\<close> when it throws). The first component of the
  result is the list of outbound requests, in the order they are sent.
\<close>

definition POST :: "world \<Rightarrow> string option \<Rightarrow> jsval option \<Rightarrow> request list \<times> http" where
  "POST w apiKey body0 =
     (if apiKey = None \<or> apiKey = Some [] then
        ([], Json 500 (ErrorBody ''Missing OPENROUTER_API_KEY in environment''))
      else (case body0 of
              None \<Rightarrow> ([], Json 400 (ErrorBody ''Invalid JSON body''))
            | Some body \<Rightarrow>
                (case member_of body ''messages'' of
                   Inl e \<Rightarrow> ([], Unhandled e)
                 | Inr JUndefined \<Rightarrow> ([], Json 400 (ErrorBody messages_required))
                 | Inr JNull \<Rightarrow> ([], Json 400 (ErrorBody messages_required))
                 | Inr (JBool b) \<Rightarrow> ([], Json 400 (ErrorBody messages_required))
                 | Inr (JNum r) \<Rightarrow> ([], Json 400 (ErrorBody messages_required))
                 | Inr (JStr s) \<Rightarrow> ([], Json 400 (ErrorBody messages_required))
                 | Inr (JObj kvs) \<Rightarrow> ([], Json 400 (ErrorBody messages_required))
                 | Inr (JArr messages) \<Rightarrow>
                     (if modelsToCall body = [] then
                        ([], Json 400 (ErrorBody ''No models selected to call''))
                      else (case resolve_all (map (\<lambda>b. (b, generation w (modelId b))) (modelsToCall body)) of
                              Inl e \<Rightarrow> (map (\<lambda>b. Generate (modelId b)) (modelsToCall body), failed_call)
                            | Inr responses \<Rightarrow>
                                (map (\<lambda>b. Generate (modelId b)) (modelsToCall body)
                                   @ fst (respond w messages responses),
                                 snd (respond w messages responses)))))))"

section \<open>Notions the properties are stated with\<close>

text \<open>The number a value of the score object stands for: a tainted value is no number.\<close>

definition vote_count :: "score \<Rightarrow> nat" where
  "vote_count v = (case v of Votes n \<Rightarrow> n | Tainted n \<Rightarrow> 0)"


definition score_sum :: "scores \<Rightarrow> nat" where
  "score_sum sc = sum_list (map (\<lambda>e. vote_count (snd e)) sc)"


definition holds_count :: "scores \<Rightarrow> string \<Rightarrow> bool" where
  "holds_count sc k =
     (case map_of sc k of Some (Votes n) \<Rightarrow> True | Some (Tainted n) \<Rightarrow> False | None \<Rightarrow> False)"

text \<open>The record one judge pushes: its callback run on an empty state.\<close>

definition judge_vote :: "world \<Rightarrow> ModelAnswer \<Rightarrow> JudgeVote" where
  "judge_vote w judge = hd (snd (judge_done w ([], []) judge))"

text \<open>The backend ids for which \<open>Object.entries\<close> keeps the order of creation.\<close>

definition plain_key :: "string \<Rightarrow> bool" where
  "plain_key k = (array_index k = None \<and> k \<noteq> ''__proto__'')"

text \<open>\<open>typeof v === "string" ? v : null\<close>.\<close>

definition as_string :: "jsval \<Rightarrow> string option" where
  "as_string v = (case v of JStr s \<Rightarrow> Some s | JUndefined \<Rightarrow> None | JNull \<Rightarrow> None
     | JBool b \<Rightarrow> None | JNum r \<Rightarrow> None | JArr xs \<Rightarrow> None | JObj kvs \<Rightarrow> None)"

text \<open>A message the search for the last user message passes over without throwing.\<close>

definition not_user :: "jsval \<Rightarrow> bool" where
  "not_user m = (m \<noteq> JNull \<and> m \<noteq> JUndefined \<and> own_prop m ''role'' \<noteq> JStr ''user'')"

section \<open>Sample rounds\<close>

text \<open>
  Concrete inputs for the closed theorems below. \<open>sample_parse\<close> is \<open>JSON.parse\<close> on
  the texts the samples use: an object with the one field \<open>winner_model_id\<close>, the
  object of the fenced reply, and an exception on anything else.
\<close>

definition vote_text :: "string \<Rightarrow> string" where
  \<open>vote_text k = ''{"winner_model_id":"'' @ k @ ''"}''\<close>

definition vote_obj :: "string \<Rightarrow> jsval" where
  "vote_obj k = JObj [(''winner_model_id'', JStr k)]"

definition fenced_object :: string where
  \<open>fenced_object = ''{"winner_model_id":"X","reasoning":"ok"}''\<close>

definition fenced_reply :: string where
  "fenced_reply = fence @ ''json'' @ [CHR 0x0A] @ fenced_object @ [CHR 0x0A] @ fence"

definition sample_parse :: "string \<Rightarrow> jsval option" where
  "sample_parse s =
     map_of ((fenced_object, JObj [(''winner_model_id'', JStr ''X''), (''reasoning'', JStr ''ok'')])
             # map (\<lambda>k. (vote_text k, vote_obj k))
                 [''A'', ''B'', ''X'', ''constructor'', NVIDIA_MODEL, MISTRAL_MODEL]) s"

definition reply_with :: "string \<Rightarrow> jsval" where
  "reply_with s = JObj [(''choices'', JArr [JObj [(''message'', JObj [(''content'', JStr s)])]])]"

definition says :: "string \<Rightarrow> fetched" where
  "says s = Resolved \<lparr>ok = True, status = 200, body_text = None, body_json = Some (reply_with s)\<rparr>"

definition choice_of :: "string \<Rightarrow> string \<Rightarrow> jsval" where
  "choice_of m s = JObj [(''model'', JStr m), (''message'', JObj [(''content'', JStr s)])]"

definition answer_of :: "nat \<Rightarrow> string \<Rightarrow> string \<Rightarrow> ModelAnswer" where
  "answer_of i m s = \<lparr>index = i, model = m, content = s\<rparr>"

text \<open>
  The scenario of the specification: candidates A, B and C; judge A votes for B, judge B
  for B, and the reply of judge C does not parse. C's reply arrives first.
\<close>

definition world_abc :: world where
  "world_abc =
     \<lparr>JSON_parse = sample_parse, JSON_stringify = (\<lambda>v. ''null''), generation = (\<lambda>m. Rejected),
      judgement = (\<lambda>a. if model a = ''C'' then says ''I cannot decide'' else says (vote_text ''B'')),
      arrival = [2, 0]\<rparr>"

definition choices_abc :: "jsval list" where
  "choices_abc = [choice_of ''A'' ''4'', choice_of ''B'' ''four'', choice_of ''C'' ''5'']"

definition answers_abc :: "ModelAnswer list" where
  "answers_abc = [answer_of 0 ''A'' ''4'', answer_of 1 ''B'' ''four'', answer_of 2 ''C'' ''5'']"

text \<open>Two candidates; judge A names a model X that is no candidate, B's reply does not parse.\<close>

definition choices_ab :: "jsval list" where
  "choices_ab = [choice_of ''A'' ''4'', choice_of ''B'' ''four'']"

definition answers_ab :: "ModelAnswer list" where
  "answers_ab = [answer_of 0 ''A'' ''4'', answer_of 1 ''B'' ''four'']"

definition world_x :: world where
  "world_x =
     \<lparr>JSON_parse = sample_parse, JSON_stringify = (\<lambda>v. ''null''), generation = (\<lambda>m. Rejected),
      judgement = (\<lambda>a. if model a = ''A'' then says (vote_text ''X'') else says ''I cannot decide''),
      arrival = []\<rparr>"

text \<open>Judge A names \<open>constructor\<close>; the request of judge B is rejected.\<close>

definition world_constructor :: world where
  "world_constructor =
     \<lparr>JSON_parse = sample_parse, JSON_stringify = (\<lambda>v. ''null''), generation = (\<lambda>m. Rejected),
      judgement = (\<lambda>a. if model a = ''A'' then says (vote_text ''constructor'') else Rejected),
      arrival = []\<rparr>"

text \<open>The message of the second choice has a role and no content.\<close>

definition choices_no_content :: "jsval list" where
  "choices_no_content =
     [choice_of ''A'' ''4'',
      JObj [(''model'', JStr ''B''), (''message'', JObj [(''role'', JStr ''assistant'')])]]"

text \<open>Each judge votes for the other one: a tie.\<close>

definition world_tie :: world where
  "world_tie =
     \<lparr>JSON_parse = sample_parse, JSON_stringify = (\<lambda>v. ''null''), generation = (\<lambda>m. Rejected),
      judgement = (\<lambda>a. if model a = ''A'' then says (vote_text ''B'') else says (vote_text ''A'')),
      arrival = [1]\<rparr>"

text \<open>Every judge sends the fenced reply of the specification.\<close>

definition world_fenced :: world where
  "world_fenced =
     \<lparr>JSON_parse = sample_parse, JSON_stringify = (\<lambda>v. ''null''), generation = (\<lambda>m. Rejected),
      judgement = (\<lambda>a. says fenced_reply), arrival = []\<rparr>"

text \<open>Every judge sends a sentence followed by an object that names A.\<close>

definition prose_reply :: string where
  "prose_reply = ''My verdict: '' @ vote_text ''A''"

definition world_prose :: world where
  "world_prose =
     \<lparr>JSON_parse = sample_parse, JSON_stringify = (\<lambda>v. ''null''), generation = (\<lambda>m. Rejected),
      judgement = (\<lambda>a. says prose_reply), arrival = []\<rparr>"

text \<open>Requests to the handler, and backends that answer, refuse or cannot be reached.\<close>

definition user_message :: "jsval \<Rightarrow> jsval" where
  "user_message c = JObj [(''role'', JStr ''user''), (''content'', c)]"

definition assistant_message :: jsval where
  "assistant_message = JObj [(''role'', JStr ''assistant''), (''content'', JStr ''4'')]"

definition image_parts :: jsval where
  "image_parts = JArr [JObj [(''type'', JStr ''image_url'')]]"

definition body_with :: "jsval list \<Rightarrow> jsval list \<Rightarrow> jsval" where
  "body_with ms ids = JObj [(''messages'', JArr ms), (''activeModels'', JArr ids)]"

definition two_models :: "jsval list" where
  "two_models = [JStr NVIDIA_MODEL, JStr ''unknown/model'', JStr MISTRAL_MODEL]"

definition refusal :: "nat \<Rightarrow> string \<Rightarrow> response" where
  "refusal n t = \<lparr>ok = False, status = n, body_text = Some t, body_json = None\<rparr>"

definition world_down :: world where
  "world_down =
     \<lparr>JSON_parse = sample_parse, JSON_stringify = (\<lambda>v. ''null''),
      generation = (\<lambda>m. Resolved (if m = NVIDIA_MODEL then refusal 429 ''rate limited'' else refusal 500 [])),
      judgement = (\<lambda>a. Rejected), arrival = []\<rparr>"

definition world_up :: world where
  "world_up =
     \<lparr>JSON_parse = sample_parse, JSON_stringify = (\<lambda>v. ''null''),
      generation = (\<lambda>m. says (if m = NVIDIA_MODEL then ''4'' else ''four'')),
      judgement = (\<lambda>a. says (vote_text NVIDIA_MODEL)), arrival = []\<rparr>"

text \<open>A conversation whose last user message is an image, and one that ends with a reply.\<close>

definition messages_image :: "jsval list" where
  "messages_image = [user_message (JStr ''2+2?''), assistant_message, user_message image_parts]"

definition messages_text :: "jsval list" where
  "messages_text = [user_message (JStr ''2+2?''), assistant_message]"

definition choices_up :: "jsval list" where
  "choices_up = [choice_of NVIDIA_MODEL ''4'', choice_of MISTRAL_MODEL ''four'']"

text \<open>The second backend answers with a message that has a role and no content.\<close>

definition silent_reply :: jsval where
  "silent_reply = JObj [(''choices'', JArr [JObj [(''message'', JObj [(''role'', JStr ''assistant'')])]])]"

definition world_silent :: world where
  "world_silent =
     \<lparr>JSON_parse = sample_parse, JSON_stringify = (\<lambda>v. ''null''),
      generation = (\<lambda>m. if m = NVIDIA_MODEL then says ''4''
         else Resolved \<lparr>ok = True, status = 200, body_text = None, body_json = Some silent_reply\<rparr>),
      judgement = (\<lambda>a. Rejected), arrival = []\<rparr>"

text \<open>
  Every judge sends an array that holds an object naming A. \<open>array_parse\<close> is
  \<open>JSON.parse\<close> on the texts of this sample: the array parses.
\<close>

definition array_reply :: string where
  "array_reply = ''['' @ vote_text ''A'' @ '']''"

definition array_parse :: "string \<Rightarrow> jsval option" where
  "array_parse s = (if s = array_reply then Some (JArr [vote_obj ''A'']) else sample_parse s)"

definition world_array :: world where
  "world_array =
     \<lparr>JSON_parse = array_parse, JSON_stringify = (\<lambda>v. ''null''), generation = (\<lambda>m. Rejected),
      judgement = (\<lambda>a. says array_reply), arrival = []\<rparr>"

section \<open>Properties\<close>

subsection \<open>The score object, the judges and the order of arrival\<close>

lemma map_of_put: "map_of (put sc k v) k' = (if k' = k then Some v else map_of sc k')"
  by (induction sc) auto


lemma score_sum_put_new: "map_of sc k = None \<Longrightarrow> score_sum (put sc k v) = score_sum sc + vote_count v"
  by (induction sc) (auto simp: score_sum_def split: if_splits)

lemma score_sum_put_old:
  "map_of sc k = Some u \<Longrightarrow> score_sum (put sc k v) + vote_count u = score_sum sc + vote_count v"
  by (induction sc) (auto simp: score_sum_def split: if_splits)

lemma score_sum_put_vote:
  "map_of sc k = Some (Votes n) \<Longrightarrow> score_sum (put sc k (Votes (Suc n))) = Suc (score_sum sc)"
  using score_sum_put_old[of sc k "Votes n" "Votes (Suc n)"] by (simp add: vote_count_def)

lemma score_sum_put_taint:
  "map_of sc k = Some (Tainted n) \<Longrightarrow> score_sum (put sc k (Tainted m)) = score_sum sc"
  using score_sum_put_old[of sc k "Tainted n" "Tainted m"] by (simp add: vote_count_def)

lemma no_proto_key: "''__proto__'' \<notin> set proto_methods"
  by (simp add: proto_methods_def)

lemma holds_count_cast_vote: "holds_count (cast_vote sc v) k = holds_count sc k"
  by (auto simp: cast_vote_def increment_def assign_def holds_count_def map_of_put
      split: option.splits score.splits)

lemma score_sum_cast_vote:
  "score_sum (cast_vote sc v) =
     score_sum sc + (case v of None \<Rightarrow> 0 | Some k \<Rightarrow> if k \<noteq> [] \<and> k \<noteq> ''__proto__'' \<and> holds_count sc k then 1 else 0)"
  by (auto simp: cast_vote_def increment_def assign_def holds_count_def has_value_def
      vote_count_def score_sum_put_new score_sum_put_vote score_sum_put_taint
      split: option.splits score.splits)

lemma judge_done_eq:
  "judge_done w st judge =
     (cast_vote (fst st) (votedModelId (judge_vote w judge)), snd st @ [judge_vote w judge])"
  by (auto simp: judge_done_def judge_vote_def record_reply_def no_vote_def cast_vote_def
      split: fetched.splits option.splits jsval.splits)

lemma judge_vote_judge: "judgeModelId (judge_vote w judge) = model judge"
  by (auto simp: judge_done_def judge_vote_def record_reply_def no_vote_def
      split: fetched.splits option.splits jsval.splits)

lemma foldl_judge_done:
  "foldl (judge_done w) st xs =
     (foldl cast_vote (fst st) (map (\<lambda>a. votedModelId (judge_vote w a)) xs),
      snd st @ map (judge_vote w) xs)"
  by (induction xs arbitrary: st) (auto simp: judge_done_eq)

lemma mset_remove_nth: "i < length xs \<Longrightarrow> add_mset (xs ! i) (mset (remove_nth i xs)) = mset xs"
  unfolding remove_nth_def
  by (metis append_take_drop_id Cons_nth_drop_Suc mset.simps(2) mset_append union_mset_add_mset_right)

lemma mset_schedule: "mset (schedule ks xs) = mset xs"
proof (induction ks xs rule: schedule.induct)
  case (3 k ks x xs)
  have "k mod length (x # xs) < length (x # xs)" by simp
  from mset_remove_nth[OF this] 3 show ?case by simp
qed simp_all






lemma list_all_put: "list_all P sc \<Longrightarrow> P (k, v) \<Longrightarrow> list_all P (put sc k v)"
  by (induction sc) auto









lemma init_scores_snoc:
  "init_scores (as @ [a]) = assign (init_scores as) (model a) (Votes 0)"
  by (simp add: init_scores_def)

lemma init_scores_zero: "list_all (\<lambda>e. snd e = Votes 0) (init_scores as)"
proof (induction as rule: rev_induct)
  case Nil
  then show ?case by (simp add: init_scores_def)
next
  case (snoc a as)
  then show ?case by (simp add: init_scores_snoc assign_def list_all_put)
qed

lemma init_scores_keys:
  "fst ` set (init_scores as) = model ` set as - {''__proto__''}"
proof (induction as rule: rev_induct)
  case Nil
  then show ?case by (simp add: init_scores_def)
next
  case (snoc a as)
  have "fst ` set (put sc k v) = insert k (fst ` set sc)" for sc :: scores and k v
    by (induction sc) auto
  with snoc show ?case by (auto simp: init_scores_snoc assign_def)
qed



subsection \<open>Candidate answers\<close>

lemma keep_answers_length: "keep_answers xs = Inr as \<Longrightarrow> length as \<le> length xs"
proof (induction xs arbitrary: as rule: keep_answers.induct)
  case (2 rest)
  then show ?case by fastforce
next
  case (4 i m s rest)
  then obtain kept where k: "keep_answers rest = Inr kept" by (auto split: sum.splits)
  with 4 have "length kept \<le> length rest" by blast
  with 4(2) k show ?case by (auto split: if_splits)
qed simp_all

lemma answers_of_length: "answers_of ser cs = Inr as \<Longrightarrow> length as \<le> length cs"
  using keep_answers_length[of "map (to_answer ser) (enumerate 0 cs)" as]
  by (simp add: answers_of_def)

lemma runCrossEvaluation_proceeds:
  assumes "answers_of (JSON_stringify w) choices = Inr answers" and "2 \<le> length answers"
    and "q \<noteq> None" and "q \<noteq> Some []"
  shows "runCrossEvaluation w choices q =
           (map (judge_request_of answers) answers, Inr (Some (evaluate_answers w answers)))"
proof -
  from answers_of_length[OF assms(1)] assms(2) have "2 \<le> length choices" by simp
  with assms show ?thesis by (simp add: runCrossEvaluation_def)
qed

lemma evaluate_answers_judges:
  "judges (evaluate_answers w as) = map (judge_vote w) (schedule (arrival w) as)"
  by (simp add: evaluate_answers_def Let_def foldl_judge_done)

lemma evaluate_answers_scores:
  "scores (evaluate_answers w as) =
     foldl cast_vote (init_scores as) (map (\<lambda>a. votedModelId (judge_vote w a)) (schedule (arrival w) as))"
  by (simp add: evaluate_answers_def Let_def foldl_judge_done)


lemmas sample_defs =
  world_abc_def choices_abc_def answers_abc_def choices_ab_def answers_ab_def world_x_def
  world_constructor_def choices_no_content_def world_tie_def world_fenced_def world_prose_def
  prose_reply_def user_message_def assistant_message_def image_parts_def body_with_def
  two_models_def refusal_def world_down_def world_up_def messages_image_def messages_text_def
  choices_up_def choice_of_def answer_of_def says_def
  reply_with_def vote_text_def vote_obj_def sample_parse_def fenced_object_def fenced_reply_def

lemmas candidate_defs = answers_of_def to_answer_def trim_def is_ws_def

lemmas judge_defs =
  judge_vote_def judge_done_def record_reply_def no_vote_def reply_content_def judge_text_def
  strip_fence_def startsWith_def fence_def trim_def is_ws_def string_field_def lastIndexOf_def
  slice_def

lemma answers_abc: "answers_of (JSON_stringify world_abc) choices_abc = Inr answers_abc"
  by (simp add: sample_defs candidate_defs)

text \<open>
  C7. In every round that proceeds (a non-empty question and at least two valid
  candidates), whatever the judges' requests do (rejected, not ok, unreadable,
  unparseable or a vote) and in whatever order their replies arrive, the evaluation is
  returned and its \<open>judges\<close> hold exactly one record per valid candidate: the record of
  that candidate acting as judge.
\<close>

theorem judges_one_per_candidate:
  assumes "answers_of (JSON_stringify w) choices = Inr answers" and "2 \<le> length answers"
    and "q \<noteq> None" and "q \<noteq> Some []"
  shows "\<exists>ev. snd (runCrossEvaluation w choices q) = Inr (Some ev)
           \<and> mset (judges ev) = image_mset (judge_vote w) (mset answers)
           \<and> length (judges ev) = length answers
           \<and> mset (map judgeModelId (judges ev)) = mset (map model answers)"
proof -
  let ?ev = "evaluate_answers w answers"
  have "snd (runCrossEvaluation w choices q) = Inr (Some ?ev)"
    by (simp add: runCrossEvaluation_proceeds[OF assms])
  moreover have j: "mset (judges ?ev) = image_mset (judge_vote w) (mset answers)"
    by (simp add: evaluate_answers_judges mset_schedule)
  moreover have "length (judges ?ev) = length answers"
    using mset_eq_length[OF mset_schedule[of "arrival w" answers]]
    by (simp add: evaluate_answers_judges)
  moreover have "mset (map judgeModelId (judges ?ev)) = mset (map model answers)"
    using j by (simp add: image_mset.compositionality comp_def judge_vote_judge)
  ultimately show ?thesis by blast
qed

theorem judges_one_per_candidate_witness:
  "answers_of (JSON_stringify world_abc) choices_abc = Inr answers_abc
   \<and> (2::nat) \<le> length answers_abc
   \<and> (\<exists>ev. snd (runCrossEvaluation world_abc choices_abc (Some ''2+2?'')) = Inr (Some ev)
         \<and> mset (judges ev) = image_mset (judge_vote world_abc) (mset answers_abc)
         \<and> length (judges ev) = length answers_abc
         \<and> mset (map judgeModelId (judges ev)) = mset (map model answers_abc))
   \<and> map (judge_vote world_abc) answers_abc =
       [\<lparr>judgeModelId = ''A'', votedModelId = Some ''B'', reasoning = None\<rparr>,
        \<lparr>judgeModelId = ''B'', votedModelId = Some ''B'', reasoning = None\<rparr>,
        \<lparr>judgeModelId = ''C'', votedModelId = None, reasoning = None\<rparr>]"
proof -
  have len: "(2::nat) \<le> length answers_abc" by (simp add: answers_abc_def)
  have votes: "map (judge_vote world_abc) answers_abc =
       [\<lparr>judgeModelId = ''A'', votedModelId = Some ''B'', reasoning = None\<rparr>,
        \<lparr>judgeModelId = ''B'', votedModelId = Some ''B'', reasoning = None\<rparr>,
        \<lparr>judgeModelId = ''C'', votedModelId = None, reasoning = None\<rparr>]"
    by (simp add: sample_defs judge_defs)
  have ex: "\<exists>ev. snd (runCrossEvaluation world_abc choices_abc (Some ''2+2?'')) = Inr (Some ev)
         \<and> mset (judges ev) = image_mset (judge_vote world_abc) (mset answers_abc)
         \<and> length (judges ev) = length answers_abc
         \<and> mset (map judgeModelId (judges ev)) = mset (map model answers_abc)"
    by (rule judges_one_per_candidate[OF answers_abc len]) simp_all
  show ?thesis by (rule conjI[OF answers_abc conjI[OF len conjI[OF ex votes]]])
qed

subsection \<open>Votes and scores\<close>

lemma to_answer_model: "to_answer ser ic = Some (i, m, c) \<Longrightarrow> m \<noteq> [] \<and> i = fst ic"
  by (auto simp: to_answer_def split: jsval.splits if_splits)

lemma keep_answers_origin:
  "keep_answers xs = Inr as \<Longrightarrow> a \<in> set as \<Longrightarrow>
     Some (index a, model a, Some (content a)) \<in> set xs \<and> trim (content a) \<noteq> []"
proof (induction xs arbitrary: as rule: keep_answers.induct)
  case (4 i m s rest)
  then obtain kept where k: "keep_answers rest = Inr kept" by (auto split: sum.splits)
  show ?case
  proof (cases "a \<in> set kept")
    case True
    with 4(1)[OF k] show ?thesis by simp
  next
    case False
    with 4(2,3) k show ?thesis by (auto split: if_splits)
  qed
qed auto

lemma answers_of_model:
  assumes "answers_of ser cs = Inr as" and "a \<in> set as"
  shows "model a \<noteq> []"
proof -
  from assms have "keep_answers (map (to_answer ser) (enumerate 0 cs)) = Inr as"
    by (simp add: answers_of_def)
  from keep_answers_origin[OF this assms(2)]
  have "Some (index a, model a, Some (content a)) \<in> to_answer ser ` set (enumerate 0 cs)"
    by simp
  then obtain ic where "to_answer ser ic = Some (index a, model a, Some (content a))"
    by (metis imageE)
  then show ?thesis by (rule to_answer_model[THEN conjunct1])
qed

lemma answers_of_content: "answers_of ser cs = Inr as \<Longrightarrow> a \<in> set as \<Longrightarrow> trim (content a) \<noteq> []"
  using keep_answers_origin[of "map (to_answer ser) (enumerate 0 cs)" as a]
  by (simp add: answers_of_def)

lemma score_sum_foldl_cast_vote:
  "score_sum (foldl cast_vote sc vs) =
     score_sum sc + length (filter (\<lambda>v. case v of None \<Rightarrow> False
        | Some k \<Rightarrow> k \<noteq> [] \<and> k \<noteq> ''__proto__'' \<and> holds_count sc k) vs)"
proof (induction vs arbitrary: sc)
  case Nil
  then show ?case by simp
next
  case (Cons v vs)
  show ?case
    by (simp add: Cons.IH score_sum_cast_vote holds_count_cast_vote split: option.splits)
qed

lemma init_scores_sum: "score_sum (init_scores as) = 0"
  using init_scores_zero[of as]
  by (auto simp: score_sum_def list_all_iff vote_count_def)

lemma init_scores_holds: "holds_count (init_scores as) k = (k \<in> fst ` set (init_scores as))"
proof (cases "map_of (init_scores as) k")
  case None
  then have "k \<notin> fst ` set (init_scores as)" by (simp add: map_of_eq_None_iff)
  with None show ?thesis by (simp add: holds_count_def)
next
  case (Some v)
  then have "(k, v) \<in> set (init_scores as)" by (rule map_of_SomeD)
  moreover from this init_scores_zero[of as] have "v = Votes 0" by (auto simp: list_all_iff)
  ultimately show ?thesis using Some by (force simp: holds_count_def)
qed

lemma init_scores_hit:
  assumes "list_all (\<lambda>a. model a \<noteq> []) as"
  shows "(case v of None \<Rightarrow> False
          | Some k \<Rightarrow> k \<noteq> [] \<and> k \<noteq> ''__proto__'' \<and> holds_count (init_scores as) k)
         = (v \<in> Some ` fst ` set (init_scores as))"
proof (cases v)
  case None
  then show ?thesis by auto
next
  case (Some k)
  have "k \<noteq> [] \<and> k \<noteq> ''__proto__''" if "k \<in> fst ` set (init_scores as)"
    using that assms by (auto simp: init_scores_keys list_all_iff)
  then show ?thesis by (auto simp: Some init_scores_holds)
qed

text \<open>
  C2, as amended. In every round that proceeds, the sum of the counts in \<open>scores\<close> is
  the number of judge records whose \<open>votedModelId\<close> is a key of the score object as it
  was initialised (one of the candidates' ids); it is at most the number of records whose
  \<open>votedModelId\<close> is not null.
\<close>

theorem score_sum_counts_known_votes:
  assumes "answers_of (JSON_stringify w) choices = Inr answers" and "2 \<le> length answers"
    and "q \<noteq> None" and "q \<noteq> Some []"
  shows "\<exists>ev. snd (runCrossEvaluation w choices q) = Inr (Some ev)
           \<and> score_sum (scores ev)
               = length (filter (\<lambda>j. votedModelId j \<in> Some ` fst ` set (init_scores answers)) (judges ev))
           \<and> score_sum (scores ev) \<le> length (filter (\<lambda>j. votedModelId j \<noteq> None) (judges ev))"
proof -
  let ?ev = "evaluate_answers w answers"
  let ?hit = "\<lambda>j. votedModelId j \<in> Some ` fst ` set (init_scores answers)"
  have run: "snd (runCrossEvaluation w choices q) = Inr (Some ?ev)"
    by (simp add: runCrossEvaluation_proceeds[OF assms])
  have named: "list_all (\<lambda>a. model a \<noteq> []) answers"
    using answers_of_model[OF assms(1)] by (simp add: list_all_iff)
  have sum: "score_sum (scores ?ev) = length (filter ?hit (judges ?ev))"
    by (simp add: evaluate_answers_scores evaluate_answers_judges score_sum_foldl_cast_vote
        init_scores_sum init_scores_hit[OF named] filter_map comp_def)
  have "length (filter ?hit (judges ?ev)) \<le> length (filter (\<lambda>j. votedModelId j \<noteq> None) (judges ?ev))"
  proof -
    have "filter ?hit (judges ?ev)
            = filter ?hit (filter (\<lambda>j. votedModelId j \<noteq> None) (judges ?ev))"
      by (auto intro: filter_cong)
    then show ?thesis by (metis length_filter_le)
  qed
  with run sum show ?thesis by auto
qed

lemma answers_ab: "answers_of (JSON_stringify w) choices_ab = Inr answers_ab"
  by (simp add: sample_defs candidate_defs)

lemmas round_defs =
  runCrossEvaluation_def evaluate_answers_def judge_request_of_def init_scores_def assign_def
  cast_vote_def has_value_def increment_def proto_methods_def entries_def array_index_def
  is_digit_def winner_index_def Let_def

theorem score_sum_counts_known_votes_witness:
  "answers_of (JSON_stringify world_abc) choices_abc = Inr answers_abc
   \<and> (2::nat) \<le> length answers_abc
   \<and> (\<exists>ev. snd (runCrossEvaluation world_abc choices_abc (Some ''2+2?'')) = Inr (Some ev)
         \<and> score_sum (scores ev)
             = length (filter (\<lambda>j. votedModelId j \<in> Some ` fst ` set (init_scores answers_abc)) (judges ev))
         \<and> score_sum (scores ev) \<le> length (filter (\<lambda>j. votedModelId j \<noteq> None) (judges ev)))
   \<and> init_scores answers_abc = [(''A'', Votes 0), (''B'', Votes 0), (''C'', Votes 0)]"
proof -
  have len: "(2::nat) \<le> length answers_abc" by (simp add: answers_abc_def)
  have init: "init_scores answers_abc = [(''A'', Votes 0), (''B'', Votes 0), (''C'', Votes 0)]"
    by (simp add: sample_defs init_scores_def assign_def)
  have ex: "\<exists>ev. snd (runCrossEvaluation world_abc choices_abc (Some ''2+2?'')) = Inr (Some ev)
         \<and> score_sum (scores ev)
             = length (filter (\<lambda>j. votedModelId j \<in> Some ` fst ` set (init_scores answers_abc)) (judges ev))
         \<and> score_sum (scores ev) \<le> length (filter (\<lambda>j. votedModelId j \<noteq> None) (judges ev))"
    by (rule score_sum_counts_known_votes[OF answers_abc len]) simp_all
  show ?thesis by (rule conjI[OF answers_abc conjI[OF len conjI[OF ex init]]])
qed

text \<open>
  C2 as stated fails: judge A names a model that is no candidate, so one record has a
  \<open>votedModelId\<close> that is not null while every score stays zero.
\<close>

theorem unknown_vote_not_counted:
  "\<exists>ev. snd (runCrossEvaluation world_x choices_ab (Some ''2+2?'')) = Inr (Some ev)
     \<and> scores ev = [(''A'', Votes 0), (''B'', Votes 0)]
     \<and> judges ev = [\<lparr>judgeModelId = ''A'', votedModelId = Some ''X'', reasoning = None\<rparr>,
                     \<lparr>judgeModelId = ''B'', votedModelId = None, reasoning = None\<rparr>]
     \<and> score_sum (scores ev) = 0
     \<and> length (filter (\<lambda>j. votedModelId j \<noteq> None) (judges ev)) = 1"
  by (simp add: round_defs sample_defs candidate_defs judge_defs score_sum_def vote_count_def)

subsection \<open>What a judge's record holds\<close>

lemma judge_vote_voted:
  "votedModelId (judge_vote w judge) =
     (case judgement w judge of
        Rejected \<Rightarrow> None
      | Resolved res \<Rightarrow>
          if ok res then
            (case body_json res of
               None \<Rightarrow> None
             | Some j \<Rightarrow>
                 (case reply_content j of
                    JStr c \<Rightarrow>
                      (case JSON_parse w (judge_text c) of
                         None \<Rightarrow> None
                       | Some p \<Rightarrow> string_field p ''winner_model_id'')
                  | JUndefined \<Rightarrow> None | JNull \<Rightarrow> None | JBool b \<Rightarrow> None
                  | JNum r \<Rightarrow> None | JArr xs \<Rightarrow> None | JObj kvs \<Rightarrow> None))
          else None)"
  by (simp add: judge_vote_def judge_done_def record_reply_def no_vote_def
      split: fetched.splits option.splits jsval.splits)

text \<open>
  C3, as amended. The record of a judge carries \<open>votedModelId = k\<close> exactly when its
  request was answered with an ok response whose content is a string that parses to a
  value with the string field \<open>winner_model_id = k\<close>; in every other case it is null.
  No case is made of \<open>k\<close> being the judge's own backend: a self-vote is recorded as it
  was given.
\<close>

theorem vote_is_parsed_winner:
  "votedModelId (judge_vote w judge) = Some k \<longleftrightarrow>
     (\<exists>res j c p. judgement w judge = Resolved res \<and> ok res \<and> body_json res = Some j
        \<and> reply_content j = JStr c \<and> JSON_parse w (judge_text c) = Some p
        \<and> string_field p ''winner_model_id'' = Some k)"
  unfolding judge_vote_voted
  by (auto split: fetched.splits option.splits jsval.splits if_splits)

theorem vote_is_parsed_winner_witness:
  "model (answer_of 1 ''B'' ''four'') = ''B''
   \<and> votedModelId (judge_vote world_abc (answer_of 1 ''B'' ''four'')) = Some ''B''
   \<and> (\<exists>res j c p. judgement world_abc (answer_of 1 ''B'' ''four'') = Resolved res \<and> ok res
         \<and> body_json res = Some j \<and> reply_content j = JStr c
         \<and> JSON_parse world_abc (judge_text c) = Some p
         \<and> string_field p ''winner_model_id'' = Some ''B'')"
proof -
  have m: "model (answer_of 1 ''B'' ''four'') = ''B''" by (simp add: answer_of_def)
  have v: "votedModelId (judge_vote world_abc (answer_of 1 ''B'' ''four'')) = Some ''B''"
    by (simp add: sample_defs judge_defs)
  from v have ex: "\<exists>res j c p. judgement world_abc (answer_of 1 ''B'' ''four'') = Resolved res \<and> ok res
         \<and> body_json res = Some j \<and> reply_content j = JStr c
         \<and> JSON_parse world_abc (judge_text c) = Some p
         \<and> string_field p ''winner_model_id'' = Some ''B''"
    by (rule vote_is_parsed_winner[THEN iffD1])
  show ?thesis by (rule conjI[OF m conjI[OF v ex]])
qed

text \<open>
  C3 as stated fails: in the scenario of the specification judge B names its own
  backend, and its record holds that vote, which is counted.
\<close>

theorem self_vote_recorded:
  "\<exists>ev. snd (runCrossEvaluation world_abc choices_abc (Some ''2+2?'')) = Inr (Some ev)
     \<and> judges ev = [\<lparr>judgeModelId = ''C'', votedModelId = None, reasoning = None\<rparr>,
                     \<lparr>judgeModelId = ''A'', votedModelId = Some ''B'', reasoning = None\<rparr>,
                     \<lparr>judgeModelId = ''B'', votedModelId = Some ''B'', reasoning = None\<rparr>]
     \<and> scores ev = [(''A'', Votes 0), (''B'', Votes 2), (''C'', Votes 0)]
     \<and> winnerModelId ev = Some ''B'' \<and> winnerIndex ev = Some 1"
  by (simp add: round_defs sample_defs candidate_defs judge_defs remove_nth_def)

subsection \<open>Votes for names that are no candidates\<close>

lemma cast_vote_unknown:
  "map_of sc k = None \<Longrightarrow> k \<notin> set proto_methods \<Longrightarrow> cast_vote sc (Some k) = sc"
  by (auto simp: cast_vote_def has_value_def increment_def assign_def no_proto_key)

lemma cast_vote_inherited:
  "map_of sc k = None \<Longrightarrow> k \<in> set proto_methods \<Longrightarrow>
     cast_vote sc (Some k) = sc @ [(k, Tainted 1)]"
proof -
  assume a: "map_of sc k = None" "k \<in> set proto_methods"
  have "put sc k v = sc @ [(k, v)]" if "map_of sc k = None" for v
    using that by (induction sc) (auto split: if_splits)
  with a show ?thesis
    by (auto simp: cast_vote_def has_value_def increment_def assign_def proto_methods_def)
qed

lemma score_sum_at_most_judges:
  "score_sum (scores (evaluate_answers w answers)) \<le> length answers"
proof -
  let ?vs = "map (\<lambda>a. votedModelId (judge_vote w a)) (schedule (arrival w) answers)"
  let ?P = "\<lambda>v. case v of None \<Rightarrow> False
     | Some k \<Rightarrow> k \<noteq> [] \<and> k \<noteq> ''__proto__'' \<and> holds_count (init_scores answers) k"
  have "score_sum (scores (evaluate_answers w answers)) = length (filter ?P ?vs)"
    by (simp only: evaluate_answers_scores score_sum_foldl_cast_vote init_scores_sum add_0)
  also have "\<dots> \<le> length ?vs" by (rule length_filter_le)
  also have "\<dots> = length answers"
    using mset_eq_length[OF mset_schedule[of "arrival w" answers]] by simp
  finally show ?thesis .
qed

text \<open>
  C4 fails on the code. Judge A names \<open>constructor\<close>, which is no candidate: the guard
  \<open>globalScores[votedModelId] != null\<close> finds the function every object inherits, and
  \<open>+= 1\<close> stores a new own property \<open>constructor\<close>, a string, in the score object.
\<close>

theorem inherited_name_adds_key:
  "init_scores answers_ab = [(''A'', Votes 0), (''B'', Votes 0)]
   \<and> (\<exists>ev. snd (runCrossEvaluation world_constructor choices_ab (Some ''2+2?'')) = Inr (Some ev)
         \<and> judges ev = [\<lparr>judgeModelId = ''A'', votedModelId = Some ''constructor'', reasoning = None\<rparr>,
                         \<lparr>judgeModelId = ''B'', votedModelId = None, reasoning = None\<rparr>]
         \<and> scores ev = [(''A'', Votes 0), (''B'', Votes 0), (''constructor'', Tainted 1)])"
  by (simp add: round_defs sample_defs candidate_defs judge_defs)

subsection \<open>Rounds that are skipped\<close>

lemma no_question_skips:
  "q = None \<or> q = Some [] \<Longrightarrow> runCrossEvaluation w choices q = ([], Inr None)"
  by (auto simp: runCrossEvaluation_def)

lemma few_choices_skip:
  "length choices < 2 \<Longrightarrow> runCrossEvaluation w choices q = ([], Inr None)"
  by (simp add: runCrossEvaluation_def)

lemma few_candidates_skip:
  "answers_of (JSON_stringify w) choices = Inr answers \<Longrightarrow> length answers < 2 \<Longrightarrow>
     runCrossEvaluation w choices q = ([], Inr None)"
  by (simp add: runCrossEvaluation_def)

lemma missing_content_is_thrown:
  "answers_of (JSON_stringify w) choices = Inl e \<Longrightarrow> 2 \<le> length choices \<Longrightarrow>
     q \<noteq> None \<Longrightarrow> q \<noteq> Some [] \<Longrightarrow> runCrossEvaluation w choices q = ([], Inl e)"
  by (simp add: runCrossEvaluation_def)

text \<open>
  C5 fails on the code. Of two choices one has a message without a \<open>content\<close> field, so
  fewer than two candidates have a text; \<open>JSON.stringify(undefined)\<close> is \<open>undefined\<close>,
  and the filter's \<open>a.content.trim()\<close> throws instead of the round returning null.
\<close>

theorem missing_content_throws:
  "runCrossEvaluation world_abc choices_no_content (Some ''2+2?'') = ([], Inl TypeError)"
  by (simp add: round_defs sample_defs candidate_defs)

subsection \<open>The winner\<close>





lemma registry_plain: "list_all (\<lambda>b. plain_key (modelId b)) allModels"
  by (simp add: allModels_def plain_key_def array_index_def is_digit_def NVIDIA_MODEL_def
      MISTRAL_MODEL_def MOLMO_MODEL_def TNG_MODEL_def GEMMA_MODEL_def MIMO_MODEL_def)


subsection \<open>The text handed to the parser\<close>

lemma indexOf_first: "c \<notin> set xs \<Longrightarrow> indexOf (xs @ c # ys) c = Some (length xs)"
  by (induction xs) auto

lemma lastIndexOf_last: "c \<notin> set ys \<Longrightarrow> lastIndexOf (xs @ c # ys) c = Some (length xs)"
  using indexOf_first[of c "rev ys" "rev xs"] by (simp add: lastIndexOf_def)

lemma strip_fence_fenced:
  assumes "CHR ''{'' \<notin> set lang" and "CHR ''}'' \<notin> set rest"
  shows "strip_fence (fence @ lang @ (CHR ''{'' # mid @ [CHR ''}'']) @ rest) = CHR ''{'' # mid @ [CHR ''}'']"
proof -
  let ?t = "fence @ lang @ (CHR ''{'' # mid @ [CHR ''}'']) @ rest"
  have first: "indexOf ?t CHR ''{'' = Some (length (fence @ lang))"
    using indexOf_first[of "CHR ''{''" "fence @ lang" "mid @ [CHR ''}''] @ rest"] assms(1)
    by (simp add: fence_def)
  have last: "lastIndexOf ?t CHR ''}'' = Some (length (fence @ lang @ CHR ''{'' # mid))"
    using lastIndexOf_last[of "CHR ''}''" rest "fence @ lang @ CHR ''{'' # mid"] assms(2)
    by simp
  have starts: "startsWith ?t fence" by (simp add: startsWith_def)
  have "slice ?t (length (fence @ lang)) (length (fence @ lang @ CHR ''{'' # mid) + 1)
          = CHR ''{'' # mid @ [CHR ''}'']"
    by (simp add: slice_def)
  with first last starts show ?thesis by (simp add: strip_fence_def)
qed

lemma strip_fence_unfenced: "\<not> startsWith t fence \<Longrightarrow> strip_fence t = t"
  by (simp add: strip_fence_def)

lemma judge_vote_parsed:
  assumes "judgement w judge = Resolved res" and "ok res" and "body_json res = Some j"
    and "reply_content j = JStr c"
  shows "judge_vote w judge =
           (case JSON_parse w (judge_text c) of
              None \<Rightarrow> no_vote judge
            | Some p \<Rightarrow> \<lparr>judgeModelId = model judge,
                          votedModelId = string_field p ''winner_model_id'',
                          reasoning = string_field p ''reasoning''\<rparr>)"
  using assms
  by (simp add: judge_vote_def judge_done_def record_reply_def split: option.splits)

text \<open>
  C6. For a judge whose reply content, trimmed, is a fence, a language tag without a
  brace, a text running from an opening to a closing brace, and a tail without a closing
  brace, that text is what is parsed, and the record's \<open>votedModelId\<close> is the string
  field \<open>winner_model_id\<close> of its parse. When the text handed to the parser does not
  parse, the record is a null vote. No reply makes the round throw: whatever the judges
  answer, a round that proceeds returns its evaluation.
\<close>

theorem fenced_reply_is_parsed:
  assumes "judgement w judge = Resolved res" and "ok res" and "body_json res = Some j"
    and "reply_content j = JStr c"
  shows "(\<forall>lang mid rest.
            trim c = fence @ lang @ (CHR ''{'' # mid @ [CHR ''}'']) @ rest
              \<and> CHR ''{'' \<notin> set lang \<and> CHR ''}'' \<notin> set rest
            \<longrightarrow> judge_text c = CHR ''{'' # mid @ [CHR ''}'']
                \<and> votedModelId (judge_vote w judge)
                    = (case JSON_parse w (CHR ''{'' # mid @ [CHR ''}'']) of
                         None \<Rightarrow> None
                       | Some p \<Rightarrow> string_field p ''winner_model_id''))
         \<and> (JSON_parse w (judge_text c) = None \<longrightarrow> judge_vote w judge = no_vote judge)
         \<and> (\<forall>choices answers q.
               answers_of (JSON_stringify w) choices = Inr answers \<and> 2 \<le> length answers
                 \<and> q \<noteq> None \<and> q \<noteq> Some []
               \<longrightarrow> (\<exists>ev. snd (runCrossEvaluation w choices q) = Inr (Some ev)))"
proof (intro conjI allI impI)
  fix lang mid rest
  assume a: "trim c = fence @ lang @ (CHR ''{'' # mid @ [CHR ''}'']) @ rest
              \<and> CHR ''{'' \<notin> set lang \<and> CHR ''}'' \<notin> set rest"
  then have "strip_fence (trim c) = CHR ''{'' # mid @ [CHR ''}'']"
    using strip_fence_fenced[of lang rest mid] by simp
  then show t: "judge_text c = CHR ''{'' # mid @ [CHR ''}'']"
    by (simp only: judge_text_def)
  show "votedModelId (judge_vote w judge)
          = (case JSON_parse w (CHR ''{'' # mid @ [CHR ''}'']) of
               None \<Rightarrow> None
             | Some p \<Rightarrow> string_field p ''winner_model_id'')"
    unfolding judge_vote_parsed[OF assms] t
    by (simp add: no_vote_def split: option.splits)
next
  assume "JSON_parse w (judge_text c) = None"
  then show "judge_vote w judge = no_vote judge"
    by (simp add: judge_vote_parsed[OF assms])
next
  fix choices answers and q :: "string option"
  assume "answers_of (JSON_stringify w) choices = Inr answers \<and> 2 \<le> length answers
            \<and> q \<noteq> None \<and> q \<noteq> Some []"
  then show "\<exists>ev. snd (runCrossEvaluation w choices q) = Inr (Some ev)"
    by (simp add: runCrossEvaluation_proceeds)
qed

lemma fenced_reply_shape:
  \<open>trim fenced_reply
     = fence @ (''json'' @ [CHR 0x0A])
         @ (CHR ''{'' # ''"winner_model_id":"X","reasoning":"ok"'' @ [CHR ''}'']) @ (CHR 0x0A # fence)\<close>
  by (simp add: fenced_reply_def fenced_object_def fence_def trim_def is_ws_def)

theorem fenced_reply_is_parsed_witness:
  \<open>judge_text fenced_reply = ''{"winner_model_id":"X","reasoning":"ok"}''
   \<and> votedModelId (judge_vote world_fenced (answer_of 0 ''A'' ''4'')) = Some ''X''
   \<and> JSON_parse world_abc (judge_text ''I cannot decide'') = None
   \<and> judge_vote world_abc (answer_of 2 ''C'' ''5'') = no_vote (answer_of 2 ''C'' ''5'')
   \<and> (\<exists>ev. snd (runCrossEvaluation world_abc choices_abc (Some ''2+2?'')) = Inr (Some ev))\<close>
proof -
  let ?r = "\<lparr>ok = True, status = 200, body_text = None, body_json = Some (reply_with fenced_reply)\<rparr>"
  have h: "judgement world_fenced (answer_of 0 ''A'' ''4'') = Resolved ?r" "ok ?r"
    "body_json ?r = Some (reply_with fenced_reply)"
    "reply_content (reply_with fenced_reply) = JStr fenced_reply"
    by (simp_all add: world_fenced_def says_def reply_with_def reply_content_def)
  note fenced = fenced_reply_is_parsed[OF h, THEN conjunct1, rule_format,
      OF conjI[OF fenced_reply_shape]]
  have braces: \<open>CHR ''{'' \<notin> set (''json'' @ [CHR 0x0A]) \<and> CHR ''}'' \<notin> set (CHR 0x0A # fence)\<close>
    by (simp add: fence_def)
  have parse: \<open>JSON_parse world_fenced (CHR ''{'' # ''"winner_model_id":"X","reasoning":"ok"'' @ [CHR ''}''])
     = Some (JObj [(''winner_model_id'', JStr ''X''), (''reasoning'', JStr ''ok'')])\<close>
    by (simp add: world_fenced_def sample_parse_def fenced_object_def)
  from fenced[OF braces] parse
  have a: \<open>judge_text fenced_reply = ''{"winner_model_id":"X","reasoning":"ok"}''\<close>
    and b: "votedModelId (judge_vote world_fenced (answer_of 0 ''A'' ''4'')) = Some ''X''"
    by (simp_all add: string_field_def)
  let ?s = "\<lparr>ok = True, status = 200, body_text = None, body_json = Some (reply_with ''I cannot decide'')\<rparr>"
  have g: "judgement world_abc (answer_of 2 ''C'' ''5'') = Resolved ?s" "ok ?s"
    "body_json ?s = Some (reply_with ''I cannot decide'')"
    "reply_content (reply_with ''I cannot decide'') = JStr ''I cannot decide''"
    by (simp_all add: world_abc_def answer_of_def says_def reply_with_def reply_content_def)
  have none: "JSON_parse world_abc (judge_text ''I cannot decide'') = None"
    by (simp add: sample_defs judge_defs)
  from fenced_reply_is_parsed[OF g, THEN conjunct2, THEN conjunct1, rule_format, OF none]
  have c: "judge_vote world_abc (answer_of 2 ''C'' ''5'') = no_vote (answer_of 2 ''C'' ''5'')" .
  have len: "(2::nat) \<le> length answers_abc" by (simp add: answers_abc_def)
  from fenced_reply_is_parsed[OF g, THEN conjunct2, THEN conjunct2, rule_format,
      of choices_abc answers_abc "Some ''2+2?''"] answers_abc len
  have d: "\<exists>ev. snd (runCrossEvaluation world_abc choices_abc (Some ''2+2?'')) = Inr (Some ev)"
    by simp
  show ?thesis by (rule conjI[OF a conjI[OF b conjI[OF none conjI[OF c d]]]])
qed

lemma trim_no_leading_space: "dropWhile is_ws (trim s) = trim s"
proof (cases "trim s")
  case Nil
  then show ?thesis by simp
next
  case (Cons x xs)
  let ?d = "dropWhile is_ws s"
  have split: "?d = trim s @ rev (takeWhile is_ws (rev ?d))"
    unfolding trim_def by (metis rev_append rev_rev_ident takeWhile_dropWhile_id)
  with Cons have d: "?d = x # xs @ rev (takeWhile is_ws (rev ?d))" by simp
  have "?d \<noteq> []"
  proof
    assume "?d = []"
    with d show False by (metis list.distinct(1))
  qed
  then have "\<not> is_ws (hd ?d)" by (rule hd_dropWhile)
  with d have "\<not> is_ws x" by (metis list.sel(1))
  with Cons show ?thesis by simp
qed

lemma string_field_object: "string_field p k = Some s \<Longrightarrow> \<exists>kvs. p = JObj kvs"
  by (cases p) (auto simp: string_field_def split: if_splits)

text \<open>
  C10, as amended. When the trimmed content of a judge's reply does not start with the
  fence, nothing is extracted: the text handed to the parser is the whole trimmed
  content, even if an object stands somewhere inside it. The record is a null vote when
  the parse of that text fails; and, for every parser that yields an object only from a
  text whose first character after white space is an opening brace (as \<open>JSON.parse\<close>
  does), it is a null vote whenever the trimmed content does not begin with an opening
  brace: with prose or any other text before the object, the parse fails or yields a
  value without a \<open>winner_model_id\<close>.
\<close>

theorem unfenced_reply_not_extracted:
  assumes "judgement w judge = Resolved res" and "ok res" and "body_json res = Some j"
    and "reply_content j = JStr c" and "\<not> startsWith (trim c) fence"
  shows "judge_text c = trim c
         \<and> (JSON_parse w (trim c) = None \<longrightarrow> judge_vote w judge = no_vote judge)
         \<and> ((\<forall>s kvs. JSON_parse w s = Some (JObj kvs)
                 \<longrightarrow> (\<exists>rest. dropWhile is_ws s = CHR ''{'' # rest))
              \<and> \<not> startsWith (trim c) [CHR ''{'']
             \<longrightarrow> votedModelId (judge_vote w judge) = None)"
proof (intro conjI impI)
  show t: "judge_text c = trim c"
    using assms(5) by (simp add: judge_text_def strip_fence_unfenced)
  show "judge_vote w judge = no_vote judge" if "JSON_parse w (trim c) = None"
    using that by (simp add: judge_vote_parsed[OF assms(1-4)] t)
  show "votedModelId (judge_vote w judge) = None"
    if h: "(\<forall>s kvs. JSON_parse w s = Some (JObj kvs)
                 \<longrightarrow> (\<exists>rest. dropWhile is_ws s = CHR ''{'' # rest))
              \<and> \<not> startsWith (trim c) [CHR ''{'']"
  proof (cases "JSON_parse w (trim c)")
    case None
    then show ?thesis by (simp add: judge_vote_parsed[OF assms(1-4)] t no_vote_def)
  next
    case (Some p)
    have "string_field p ''winner_model_id'' = None"
    proof (rule ccontr)
      assume "string_field p ''winner_model_id'' \<noteq> None"
      then obtain kvs where "p = JObj kvs" using string_field_object by blast
      with Some h obtain rest where "dropWhile is_ws (trim c) = CHR ''{'' # rest" by blast
      then have "trim c = CHR ''{'' # rest" by (simp add: trim_no_leading_space)
      with h show False by (simp add: startsWith_def)
    qed
    with Some show ?thesis by (simp add: judge_vote_parsed[OF assms(1-4)] t)
  qed
qed

lemma sample_parse_objects:
  "sample_parse s = Some (JObj kvs) \<Longrightarrow> \<exists>rest. dropWhile is_ws s = CHR ''{'' # rest"
proof -
  assume "sample_parse s = Some (JObj kvs)"
  then have "(s, JObj kvs) \<in> set ((fenced_object, JObj [(''winner_model_id'', JStr ''X''), (''reasoning'', JStr ''ok'')])
             # map (\<lambda>k. (vote_text k, vote_obj k))
                 [''A'', ''B'', ''X'', ''constructor'', NVIDIA_MODEL, MISTRAL_MODEL])"
    unfolding sample_parse_def by (rule map_of_SomeD)
  then have "s = fenced_object \<or> (\<exists>k. s = vote_text k)" by auto
  then show ?thesis by (auto simp: fenced_object_def vote_text_def is_ws_def)
qed

theorem unfenced_reply_not_extracted_witness:
  "prose_reply = ''My verdict: '' @ vote_text ''A''
   \<and> JSON_parse world_prose (vote_text ''A'') = Some (vote_obj ''A'')
   \<and> \<not> startsWith (trim prose_reply) fence
   \<and> \<not> startsWith (trim prose_reply) [CHR ''{'']
   \<and> JSON_parse world_prose (trim prose_reply) = None
   \<and> judge_text prose_reply = trim prose_reply
   \<and> judge_vote world_prose (answer_of 1 ''B'' ''four'') = no_vote (answer_of 1 ''B'' ''four'')
   \<and> votedModelId (judge_vote world_prose (answer_of 1 ''B'' ''four'')) = None"
proof -
  let ?r = "\<lparr>ok = True, status = 200, body_text = None, body_json = Some (reply_with prose_reply)\<rparr>"
  have h: "judgement world_prose (answer_of 1 ''B'' ''four'') = Resolved ?r" "ok ?r"
    "body_json ?r = Some (reply_with prose_reply)"
    "reply_content (reply_with prose_reply) = JStr prose_reply"
    by (simp_all add: world_prose_def says_def reply_with_def reply_content_def)
  have obj: "JSON_parse world_prose (vote_text ''A'') = Some (vote_obj ''A'')"
    by (simp add: world_prose_def sample_parse_def vote_text_def fenced_object_def)
  have nf: "\<not> startsWith (trim prose_reply) fence"
    by (simp add: prose_reply_def vote_text_def trim_def is_ws_def startsWith_def fence_def)
  have nb: "\<not> startsWith (trim prose_reply) [CHR ''{'']"
    by (simp add: prose_reply_def vote_text_def trim_def is_ws_def startsWith_def)
  have none: "JSON_parse world_prose (trim prose_reply) = None"
    by (simp add: sample_defs trim_def is_ws_def)
  have grammar: "\<forall>s kvs. JSON_parse world_prose s = Some (JObj kvs)
                 \<longrightarrow> (\<exists>rest. dropWhile is_ws s = CHR ''{'' # rest)"
    using sample_parse_objects by (simp add: world_prose_def)
  note inst = unfenced_reply_not_extracted[OF h nf]
  from inst[THEN conjunct1] have a: "judge_text prose_reply = trim prose_reply" .
  from inst[THEN conjunct2, THEN conjunct1, rule_format, OF none]
  have b: "judge_vote world_prose (answer_of 1 ''B'' ''four'') = no_vote (answer_of 1 ''B'' ''four'')" .
  from inst[THEN conjunct2, THEN conjunct2, rule_format, OF conjI[OF grammar nb]]
  have c: "votedModelId (judge_vote world_prose (answer_of 1 ''B'' ''four'')) = None" .
  show ?thesis
    by (rule conjI[OF prose_reply_def conjI[OF obj conjI[OF nf conjI[OF nb conjI[OF none
        conjI[OF a conjI[OF b c]]]]]]])
qed

text \<open>
  C10 as stated fails: a reply that is an array around an object begins with other
  text and holds a valid object, nothing is extracted from it, and the parse of the
  whole text does not fail: it yields the array, which has no \<open>winner_model_id\<close>, so
  the record is a null vote all the same.
\<close>

theorem array_reply_is_parsed:
  "array_reply = ''['' @ vote_text ''A'' @ '']''
   \<and> JSON_parse world_array (vote_text ''A'') = Some (vote_obj ''A'')
   \<and> \<not> startsWith (trim array_reply) fence
   \<and> judge_text array_reply = trim array_reply
   \<and> JSON_parse world_array (judge_text array_reply) = Some (JArr [vote_obj ''A''])
   \<and> JSON_parse world_array (judge_text array_reply) \<noteq> None
   \<and> judge_vote world_array (answer_of 1 ''B'' ''four'') = no_vote (answer_of 1 ''B'' ''four'')"
  by (simp add: array_reply_def array_parse_def world_array_def sample_defs judge_defs
      answer_of_def)

subsection \<open>The handler's error responses\<close>

lemma POST_no_key:
  "apiKey = None \<or> apiKey = Some [] \<Longrightarrow>
     POST w apiKey body0 = ([], Json 500 (ErrorBody ''Missing OPENROUTER_API_KEY in environment''))"
  by (auto simp: POST_def)

lemma POST_bad_json:
  "apiKey \<noteq> None \<Longrightarrow> apiKey \<noteq> Some [] \<Longrightarrow>
     POST w apiKey None = ([], Json 400 (ErrorBody ''Invalid JSON body''))"
  by (simp add: POST_def)

lemma POST_null_body:
  "apiKey \<noteq> None \<Longrightarrow> apiKey \<noteq> Some [] \<Longrightarrow> POST w apiKey (Some JNull) = ([], Unhandled TypeError)"
  by (simp add: POST_def member_of_def)

lemma POST_no_messages:
  assumes "apiKey \<noteq> None" and "apiKey \<noteq> Some []" and "body \<noteq> JNull" and "body \<noteq> JUndefined"
    and "\<not> is_array (own_prop body ''messages'')"
  shows "POST w apiKey (Some body) = ([], Json 400 (ErrorBody messages_required))"
  using assms by (cases "own_prop body ''messages''") (simp_all add: POST_def member_of_def)

lemma messages_body: "is_array (own_prop body ''messages'') \<Longrightarrow> body \<noteq> JNull \<and> body \<noteq> JUndefined"
  by (cases body) auto

lemma POST_calls:
  assumes "apiKey \<noteq> None" and "apiKey \<noteq> Some []" and "own_prop body ''messages'' = JArr ms"
  shows "POST w apiKey (Some body) =
           (if modelsToCall body = [] then ([], Json 400 (ErrorBody ''No models selected to call''))
            else (case resolve_all (map (\<lambda>b. (b, generation w (modelId b))) (modelsToCall body)) of
                    Inl e \<Rightarrow> (map (\<lambda>b. Generate (modelId b)) (modelsToCall body), failed_call)
                  | Inr responses \<Rightarrow>
                      (map (\<lambda>b. Generate (modelId b)) (modelsToCall body) @ fst (respond w ms responses),
                       snd (respond w ms responses))))"
proof -
  from assms(3) have "body \<noteq> JNull \<and> body \<noteq> JUndefined" using messages_body[of body] by simp
  with assms show ?thesis by (auto simp: POST_def member_of_def)
qed

lemma nonempty_strings_member: "s \<in> set (nonempty_strings vs) \<Longrightarrow> JStr s \<in> set vs"
  by (induction vs rule: nonempty_strings.induct) (auto split: if_splits)

lemma modelsToCall_unknown:
  assumes "own_prop body ''activeModels'' = JArr ids"
    and "list_all (\<lambda>b. JStr (modelId b) \<notin> set ids) allModels"
  shows "modelsToCall body = []"
proof -
  have "modelId b \<notin> set (nonempty_strings ids)" if "b \<in> set allModels" for b
    using that assms(2) nonempty_strings_member[of "modelId b" ids] by (auto simp: list_all_iff)
  with assms(1) show ?thesis by (simp add: modelsToCall_def filter_empty_conv)
qed

lemma allModels_distinct: "distinct (map modelId allModels)"
  by (simp add: allModels_def NVIDIA_MODEL_def MISTRAL_MODEL_def MOLMO_MODEL_def TNG_MODEL_def
      GEMMA_MODEL_def MIMO_MODEL_def)

lemma modelsToCall_registry: "set (modelsToCall body) \<subseteq> set allModels"
  by (cases "own_prop body ''activeModels''") (auto simp: modelsToCall_def)

lemma modelsToCall_distinct: "distinct (map modelId (modelsToCall body))"
  using allModels_distinct
  by (cases "own_prop body ''activeModels''") (auto simp: modelsToCall_def distinct_map_filter)

lemma resolve_all_resolved:
  "list_all (\<lambda>b. f b = Resolved (resp b)) bs \<Longrightarrow>
     resolve_all (map (\<lambda>b. (b, f b)) bs) = Inr (map (\<lambda>b. (b, resp b)) bs)"
  by (induction bs) auto

lemma resolve_all_rejected:
  "list_ex (\<lambda>b. f b = Rejected) bs \<Longrightarrow> \<exists>e. resolve_all (map (\<lambda>b. (b, f b)) bs) = Inl e"
proof (induction bs)
  case Nil
  then show ?case by simp
next
  case (Cons b bs)
  then show ?case by (cases "f b") (auto split: sum.splits)
qed

lemma respond_all_failed:
  "list_all (\<lambda>br. \<not> ok (snd br)) responses \<Longrightarrow>
     respond w ms responses =
       ([], Json 502 (ErrorDetails ''OpenRouter API error''
                        (map (\<lambda>br. (modelId (fst br), status_of (snd br))) responses)))"
  by (simp add: respond_def filter_empty_conv list_all_iff)

text \<open>
  C8, as amended. Without the API credential the handler answers 500 and sends
  nothing. With it: a body that is not JSON, or a body other than \<open>null\<close> without a
  \<open>messages\<close> array, is answered 400 and nothing is sent; when \<open>activeModels\<close> names no
  backend of the registry (other entries are ignored) the answer is 400 and nothing is
  sent; when every selected backend answers with a status that is not ok, the answer is
  502 with one status entry per selected backend, each with its status and body; and
  when a request to a backend is rejected, the answer is 500.
\<close>

theorem POST_error_responses:
  "(apiKey = None \<or> apiKey = Some [] \<longrightarrow>
      POST w apiKey body0 = ([], Json 500 (ErrorBody ''Missing OPENROUTER_API_KEY in environment'')))
   \<and> (apiKey \<noteq> None \<and> apiKey \<noteq> Some [] \<longrightarrow>
        POST w apiKey None = ([], Json 400 (ErrorBody ''Invalid JSON body''))
      \<and> (body \<noteq> JNull \<and> body \<noteq> JUndefined \<and> \<not> is_array (own_prop body ''messages'') \<longrightarrow>
            POST w apiKey (Some body) = ([], Json 400 (ErrorBody messages_required)))
      \<and> (is_array (own_prop body ''messages'') \<and> own_prop body ''activeModels'' = JArr ids
            \<and> list_all (\<lambda>b. JStr (modelId b) \<notin> set ids) allModels \<longrightarrow>
            POST w apiKey (Some body) = ([], Json 400 (ErrorBody ''No models selected to call'')))
      \<and> (is_array (own_prop body ''messages'') \<and> modelsToCall body \<noteq> []
            \<and> list_all (\<lambda>b. generation w (modelId b) = Resolved (resp b) \<and> \<not> ok (resp b))
                 (modelsToCall body) \<longrightarrow>
            POST w apiKey (Some body) =
              (map (\<lambda>b. Generate (modelId b)) (modelsToCall body),
               Json 502 (ErrorDetails ''OpenRouter API error''
                           (map (\<lambda>b. (modelId b, status_of (resp b))) (modelsToCall body))))
            \<and> distinct (map modelId (modelsToCall body)))
      \<and> (is_array (own_prop body ''messages'')
            \<and> list_ex (\<lambda>b. generation w (modelId b) = Rejected) (modelsToCall body) \<longrightarrow>
            POST w apiKey (Some body) =
              (map (\<lambda>b. Generate (modelId b)) (modelsToCall body), failed_call)))"
proof (intro conjI impI)
  assume "apiKey = None \<or> apiKey = Some []"
  then show "POST w apiKey body0 = ([], Json 500 (ErrorBody ''Missing OPENROUTER_API_KEY in environment''))"
    by (rule POST_no_key)
next
  assume "apiKey \<noteq> None \<and> apiKey \<noteq> Some []"
  then show "POST w apiKey None = ([], Json 400 (ErrorBody ''Invalid JSON body''))"
    by (simp add: POST_bad_json)
next
  assume "apiKey \<noteq> None \<and> apiKey \<noteq> Some []"
    and "body \<noteq> JNull \<and> body \<noteq> JUndefined \<and> \<not> is_array (own_prop body ''messages'')"
  then show "POST w apiKey (Some body) = ([], Json 400 (ErrorBody messages_required))"
    by (simp add: POST_no_messages)
next
  assume k: "apiKey \<noteq> None \<and> apiKey \<noteq> Some []"
    and a: "is_array (own_prop body ''messages'') \<and> own_prop body ''activeModels'' = JArr ids
            \<and> list_all (\<lambda>b. JStr (modelId b) \<notin> set ids) allModels"
  from a obtain ms where ms: "own_prop body ''messages'' = JArr ms"
    by (cases "own_prop body ''messages''") auto
  from a have "modelsToCall body = []" by (simp add: modelsToCall_unknown)
  with k ms show "POST w apiKey (Some body) = ([], Json 400 (ErrorBody ''No models selected to call''))"
    by (simp add: POST_calls)
next
  assume k: "apiKey \<noteq> None \<and> apiKey \<noteq> Some []"
    and a: "is_array (own_prop body ''messages'') \<and> modelsToCall body \<noteq> []
            \<and> list_all (\<lambda>b. generation w (modelId b) = Resolved (resp b) \<and> \<not> ok (resp b))
                 (modelsToCall body)"
  from a obtain ms where ms: "own_prop body ''messages'' = JArr ms"
    by (cases "own_prop body ''messages''") auto
  let ?bs = "modelsToCall body"
  from a have "list_all (\<lambda>b. generation w (modelId b) = Resolved (resp b)) ?bs"
    by (simp add: list_all_iff)
  from resolve_all_resolved[of "\<lambda>b. generation w (modelId b)" resp, OF this]
  have r: "resolve_all (map (\<lambda>b. (b, generation w (modelId b))) ?bs) = Inr (map (\<lambda>b. (b, resp b)) ?bs)" .
  from a have "list_all (\<lambda>br. \<not> ok (snd br)) (map (\<lambda>b. (b, resp b)) ?bs)"
    by (simp add: list_all_iff)
  from respond_all_failed[OF this, of w ms]
  have "respond w ms (map (\<lambda>b. (b, resp b)) ?bs) =
          ([], Json 502 (ErrorDetails ''OpenRouter API error''
                           (map (\<lambda>b. (modelId b, status_of (resp b))) ?bs)))"
    by (simp add: comp_def)
  with k ms a r show "POST w apiKey (Some body) =
      (map (\<lambda>b. Generate (modelId b)) ?bs,
       Json 502 (ErrorDetails ''OpenRouter API error''
                   (map (\<lambda>b. (modelId b, status_of (resp b))) ?bs)))"
    by (simp add: POST_calls)
next
  show "distinct (map modelId (modelsToCall body))" by (rule modelsToCall_distinct)
next
  assume k: "apiKey \<noteq> None \<and> apiKey \<noteq> Some []"
    and a: "is_array (own_prop body ''messages'')
            \<and> list_ex (\<lambda>b. generation w (modelId b) = Rejected) (modelsToCall body)"
  from a obtain ms where ms: "own_prop body ''messages'' = JArr ms"
    by (cases "own_prop body ''messages''") auto
  from a have ne: "modelsToCall body \<noteq> []" by auto
  from a resolve_all_rejected[of "\<lambda>b. generation w (modelId b)" "modelsToCall body"]
  obtain e where "resolve_all (map (\<lambda>b. (b, generation w (modelId b))) (modelsToCall body)) = Inl e"
    by blast
  with k ms ne show "POST w apiKey (Some body) =
      (map (\<lambda>b. Generate (modelId b)) (modelsToCall body), failed_call)"
    by (simp add: POST_calls)
qed

lemma two_models_called:
  "modelsToCall (body_with ms two_models) =
     [\<lparr>modelId = NVIDIA_MODEL, label = ''nvidia''\<rparr>, \<lparr>modelId = MISTRAL_MODEL, label = ''mistral''\<rparr>]"
  by (simp add: modelsToCall_def body_with_def two_models_def allModels_def NVIDIA_MODEL_def
      MISTRAL_MODEL_def MOLMO_MODEL_def TNG_MODEL_def GEMMA_MODEL_def MIMO_MODEL_def)

lemma body_with_messages: "own_prop (body_with ms ids) ''messages'' = JArr ms"
  by (simp add: body_with_def)

lemma body_with_active: "own_prop (body_with ms ids) ''activeModels'' = JArr ids"
  by (simp add: body_with_def)

theorem POST_error_responses_witness:
  "POST world_down None (Some (body_with [user_message (JStr ''2+2?'')] two_models))
     = ([], Json 500 (ErrorBody ''Missing OPENROUTER_API_KEY in environment''))
   \<and> POST world_down (Some ''key'') None = ([], Json 400 (ErrorBody ''Invalid JSON body''))
   \<and> POST world_down (Some ''key'') (Some (JObj [])) = ([], Json 400 (ErrorBody messages_required))
   \<and> POST world_down (Some ''key'')
        (Some (body_with [user_message (JStr ''2+2?'')] [JStr ''unknown/model'', JNum 7]))
       = ([], Json 400 (ErrorBody ''No models selected to call''))
   \<and> POST world_down (Some ''key'') (Some (body_with [user_message (JStr ''2+2?'')] two_models))
       = ([Generate NVIDIA_MODEL, Generate MISTRAL_MODEL],
          Json 502 (ErrorDetails ''OpenRouter API error''
            [(NVIDIA_MODEL, \<lparr>was_ok = False, http_status = 429, error_body = Some ''rate limited''\<rparr>),
             (MISTRAL_MODEL, \<lparr>was_ok = False, http_status = 500, error_body = None\<rparr>)]))
   \<and> POST world_abc (Some ''key'') (Some (body_with [user_message (JStr ''2+2?'')] two_models))
       = ([Generate NVIDIA_MODEL, Generate MISTRAL_MODEL], failed_call)"
proof -
  let ?ms = "[user_message (JStr ''2+2?'')]"
  let ?key = "Some ''key''"
  let ?resp = "\<lambda>b. if modelId b = NVIDIA_MODEL then refusal 429 ''rate limited'' else refusal 500 []"
  have key: "?key \<noteq> None \<and> ?key \<noteq> Some []" by simp
  have a: "POST world_down None (Some (body_with ?ms two_models))
     = ([], Json 500 (ErrorBody ''Missing OPENROUTER_API_KEY in environment''))"
    using POST_error_responses[of None world_down "Some (body_with ?ms two_models)", THEN conjunct1]
    by simp
  have b: "POST world_down ?key None = ([], Json 400 (ErrorBody ''Invalid JSON body''))"
    using POST_error_responses[of ?key world_down, THEN conjunct2, THEN mp, OF key, THEN conjunct1] .
  have c: "POST world_down ?key (Some (JObj [])) = ([], Json 400 (ErrorBody messages_required))"
    using POST_error_responses[of ?key world_down _ "JObj []", THEN conjunct2, THEN mp, OF key,
        THEN conjunct2, THEN conjunct1]
    by simp
  have unknown: "list_all (\<lambda>b. JStr (modelId b) \<notin> set [JStr ''unknown/model'', JNum 7]) allModels"
    by (simp add: allModels_def NVIDIA_MODEL_def MISTRAL_MODEL_def MOLMO_MODEL_def TNG_MODEL_def
        GEMMA_MODEL_def MIMO_MODEL_def)
  have d: "POST world_down ?key (Some (body_with ?ms [JStr ''unknown/model'', JNum 7]))
       = ([], Json 400 (ErrorBody ''No models selected to call''))"
    using POST_error_responses[of ?key world_down _ "body_with ?ms [JStr ''unknown/model'', JNum 7]"
        "[JStr ''unknown/model'', JNum 7]", THEN conjunct2, THEN mp, OF key,
        THEN conjunct2, THEN conjunct2, THEN conjunct1] unknown
    by (simp add: body_with_messages body_with_active)
  have refused: "list_all (\<lambda>b. generation world_down (modelId b) = Resolved (?resp b) \<and> \<not> ok (?resp b))
      (modelsToCall (body_with ?ms two_models))"
    by (simp add: two_models_called world_down_def refusal_def)
  have e: "POST world_down ?key (Some (body_with ?ms two_models))
       = ([Generate NVIDIA_MODEL, Generate MISTRAL_MODEL],
          Json 502 (ErrorDetails ''OpenRouter API error''
            [(NVIDIA_MODEL, \<lparr>was_ok = False, http_status = 429, error_body = Some ''rate limited''\<rparr>),
             (MISTRAL_MODEL, \<lparr>was_ok = False, http_status = 500, error_body = None\<rparr>)]))"
    using POST_error_responses[of ?key world_down _ "body_with ?ms two_models" _ ?resp,
        THEN conjunct2, THEN mp, OF key, THEN conjunct2, THEN conjunct2, THEN conjunct2,
        THEN conjunct1] refused
    by (simp add: body_with_messages two_models_called status_of_def refusal_def
        NVIDIA_MODEL_def MISTRAL_MODEL_def)
  have rejected: "list_ex (\<lambda>b. generation world_abc (modelId b) = Rejected)
      (modelsToCall (body_with ?ms two_models))"
    by (simp add: two_models_called world_abc_def)
  have f: "POST world_abc ?key (Some (body_with ?ms two_models))
       = ([Generate NVIDIA_MODEL, Generate MISTRAL_MODEL], failed_call)"
    using POST_error_responses[of ?key world_abc _ "body_with ?ms two_models",
        THEN conjunct2, THEN mp, OF key, THEN conjunct2, THEN conjunct2, THEN conjunct2,
        THEN conjunct2] rejected
    by (auto simp: body_with_messages two_models_called)
  show ?thesis by (rule conjI[OF a conjI[OF b conjI[OF c conjI[OF d conjI[OF e f]]]]])
qed

text \<open>
  C8 as stated fails: when the request to every selected backend is rejected (no
  response arrives), every backend call has failed, and the answer is 500 without
  details, not 502.
\<close>

theorem rejected_calls_answer_500:
  "generation world_abc NVIDIA_MODEL = Rejected \<and> generation world_abc MISTRAL_MODEL = Rejected
   \<and> POST world_abc (Some ''key'') (Some (body_with [user_message (JStr ''2+2?'')] two_models))
       = ([Generate NVIDIA_MODEL, Generate MISTRAL_MODEL],
          Json 500 (ErrorBody ''Failed to call OpenRouter API''))"
  by (simp add: POST_calls body_with_messages two_models_called world_abc_def failed_call_def)

subsection \<open>The question handed to the evaluation\<close>

lemma find_user_skip: "list_all not_user xs \<Longrightarrow> find_user (xs @ ys) = find_user ys"
  by (induction xs) (auto simp: not_user_def member_of_def)

lemma find_user_none: "list_all not_user xs \<Longrightarrow> find_user xs = Inr None"
  using find_user_skip[of xs "[]"] by simp

lemma find_user_last:
  assumes "own_prop m ''role'' = JStr ''user''" and "list_all not_user post"
  shows "find_user (rev (pre @ m # post)) = Inr (Some m)"
proof -
  from assms(1) have "m \<noteq> JNull \<and> m \<noteq> JUndefined" by (cases m) auto
  with assms(1) have "find_user (m # rev pre) = Inr (Some m)" by (simp add: member_of_def)
  moreover from assms(2) have "list_all not_user (rev post)" by (simp add: list_all_iff)
  ultimately show ?thesis using find_user_skip[of "rev post" "m # rev pre"] by simp
qed

lemma userQuestion_of_last:
  assumes "own_prop m ''role'' = JStr ''user''" and "list_all not_user post"
  shows "userQuestion_of (pre @ m # post) = Inr (as_string (own_prop m ''content''))"
proof -
  from assms(1) have "truthy m" by (cases m) auto
  then show ?thesis
    unfolding userQuestion_of_def find_user_last[OF assms]
    by (cases "own_prop m ''content''") (simp_all add: as_string_def)
qed

lemma userQuestion_of_none: "list_all not_user ms \<Longrightarrow> userQuestion_of ms = Inr None"
proof -
  assume "list_all not_user ms"
  then have "list_all not_user (rev ms)" by (simp add: list_all_iff)
  then show ?thesis by (simp add: userQuestion_of_def find_user_none)
qed

lemma no_question_no_requests: "runCrossEvaluation w choices None = ([], Inr None)"
  by (simp add: runCrossEvaluation_def)

text \<open>
  C9. The question handed to the cross-evaluation is the content of the last message
  whose role is \<open>user\<close>, when that content is a string, and null when it is not or when
  no message has that role. With a null question the handler sends no judge request and
  answers with \<open>evaluation = null\<close>, whatever the candidates are.
\<close>

theorem question_is_last_user_content:
  assumes "apiKey \<noteq> None" and "apiKey \<noteq> Some []"
    and "own_prop body ''messages'' = JArr messages" and "modelsToCall body \<noteq> []"
    and "resolve_all (map (\<lambda>b. (b, generation w (modelId b))) (modelsToCall body)) = Inr responses"
    and "filter (\<lambda>br. ok (snd br)) responses \<noteq> []"
    and "collect_choices (filter (\<lambda>br. ok (snd br)) responses) = Inr rc"
  shows "(\<forall>pre m post. messages = pre @ m # post \<and> own_prop m ''role'' = JStr ''user''
             \<and> list_all not_user post
           \<longrightarrow> userQuestion_of messages = Inr (as_string (own_prop m ''content'')))
       \<and> (list_all not_user messages \<longrightarrow> userQuestion_of messages = Inr None)
       \<and> (\<forall>q ev. userQuestion_of messages = Inr q
             \<and> snd (runCrossEvaluation w (snd rc) q) = Inr ev
           \<longrightarrow> (\<exists>c. snd (POST w apiKey (Some body)) = Json 200 (Completed c)
                  \<and> choices_sent c = snd rc \<and> evaluation c = ev))
       \<and> (userQuestion_of messages = Inr None
           \<longrightarrow> (\<exists>c. POST w apiKey (Some body)
                       = (map (\<lambda>b. Generate (modelId b)) (modelsToCall body), Json 200 (Completed c))
                  \<and> choices_sent c = snd rc \<and> evaluation c = None))"
proof -
  have post: "POST w apiKey (Some body) =
      (map (\<lambda>b. Generate (modelId b)) (modelsToCall body) @ fst (respond w messages responses),
       snd (respond w messages responses))"
    using assms(4,5) by (simp add: POST_calls[OF assms(1-3)])
  have resp: "respond w messages responses =
      (map Judge (fst (runCrossEvaluation w (snd rc) q)),
       Json 200 (Completed
         \<lparr>choices_sent = snd rc,
          raw_by_label = map (\<lambda>b. (label b, raw_or_null (fst rc) (label b))) allModels,
          evaluation = ev,
          modelStatuses = map (\<lambda>br. (modelId (fst br), status_of (snd br))) responses\<rparr>))"
    if "userQuestion_of messages = Inr q" and "snd (runCrossEvaluation w (snd rc) q) = Inr ev"
    for q ev
    using that assms(6,7) by (simp add: respond_def)
  show ?thesis
  proof (intro conjI allI impI)
    fix pre m post
    assume "messages = pre @ m # post \<and> own_prop m ''role'' = JStr ''user'' \<and> list_all not_user post"
    then show "userQuestion_of messages = Inr (as_string (own_prop m ''content''))"
      by (simp add: userQuestion_of_last)
  next
    assume "list_all not_user messages"
    then show "userQuestion_of messages = Inr None" by (rule userQuestion_of_none)
  next
    fix q ev
    assume "userQuestion_of messages = Inr q \<and> snd (runCrossEvaluation w (snd rc) q) = Inr ev"
    then have "respond w messages responses =
      (map Judge (fst (runCrossEvaluation w (snd rc) q)),
       Json 200 (Completed
         \<lparr>choices_sent = snd rc,
          raw_by_label = map (\<lambda>b. (label b, raw_or_null (fst rc) (label b))) allModels,
          evaluation = ev,
          modelStatuses = map (\<lambda>br. (modelId (fst br), status_of (snd br))) responses\<rparr>))"
      using resp by blast
    with post show "\<exists>c. snd (POST w apiKey (Some body)) = Json 200 (Completed c)
                  \<and> choices_sent c = snd rc \<and> evaluation c = ev"
      by simp
  next
    assume q: "userQuestion_of messages = Inr None"
    have "snd (runCrossEvaluation w (snd rc) None) = Inr None"
      by (simp add: no_question_no_requests)
    from resp[OF q this] post
    show "\<exists>c. POST w apiKey (Some body)
                 = (map (\<lambda>b. Generate (modelId b)) (modelsToCall body), Json 200 (Completed c))
            \<and> choices_sent c = snd rc \<and> evaluation c = None"
      by (simp add: no_question_no_requests)
  qed
qed

lemma world_up_responses:
  "resolve_all (map (\<lambda>b. (b, generation world_up (modelId b))) (modelsToCall (body_with ms two_models)))
     = Inr [(\<lparr>modelId = NVIDIA_MODEL, label = ''nvidia''\<rparr>,
             \<lparr>ok = True, status = 200, body_text = None, body_json = Some (reply_with ''4'')\<rparr>),
            (\<lparr>modelId = MISTRAL_MODEL, label = ''mistral''\<rparr>,
             \<lparr>ok = True, status = 200, body_text = None, body_json = Some (reply_with ''four'')\<rparr>)]"
  by (simp add: two_models_called world_up_def says_def NVIDIA_MODEL_def MISTRAL_MODEL_def)

lemma world_up_choices:
  "collect_choices (filter (\<lambda>br. ok (snd br))
     [(\<lparr>modelId = NVIDIA_MODEL, label = ''nvidia''\<rparr>,
       \<lparr>ok = True, status = 200, body_text = None, body_json = Some (reply_with ''4'')\<rparr>),
      (\<lparr>modelId = MISTRAL_MODEL, label = ''mistral''\<rparr>,
       \<lparr>ok = True, status = 200, body_text = None, body_json = Some (reply_with ''four'')\<rparr>)])
     = Inr ([(''nvidia'', reply_with ''4''), (''mistral'', reply_with ''four'')], choices_up)"
  by (simp add: reply_with_def choices_up_def choice_of_def)

lemma choices_up_answers:
  "answers_of (JSON_stringify w) choices_up
     = Inr [answer_of 0 NVIDIA_MODEL ''4'', answer_of 1 MISTRAL_MODEL ''four'']"
  by (simp add: choices_up_def choice_of_def answer_of_def candidate_defs NVIDIA_MODEL_def
      MISTRAL_MODEL_def)

theorem question_is_last_user_content_witness:
  "userQuestion_of messages_image = Inr None
   \<and> (\<exists>c. POST world_up (Some ''key'') (Some (body_with messages_image two_models))
             = ([Generate NVIDIA_MODEL, Generate MISTRAL_MODEL], Json 200 (Completed c))
          \<and> choices_sent c = choices_up \<and> evaluation c = None)
   \<and> answers_of (JSON_stringify world_up) choices_up
       = Inr [answer_of 0 NVIDIA_MODEL ''4'', answer_of 1 MISTRAL_MODEL ''four'']
   \<and> userQuestion_of messages_text = Inr (Some ''2+2?'')"
proof -
  let ?key = "Some ''key''"
  have key: "?key \<noteq> None" "?key \<noteq> Some []" by simp_all
  have sel: "modelsToCall (body_with ms two_models) \<noteq> []" for ms
    by (simp add: two_models_called)
  have oks: "filter (\<lambda>br. ok (snd br))
     [(\<lparr>modelId = NVIDIA_MODEL, label = ''nvidia''\<rparr>,
       \<lparr>ok = True, status = 200, body_text = None, body_json = Some (reply_with ''4'')\<rparr>),
      (\<lparr>modelId = MISTRAL_MODEL, label = ''mistral''\<rparr>,
       \<lparr>ok = True, status = 200, body_text = None, body_json = Some (reply_with ''four'')\<rparr>)] \<noteq> []"
    by simp
  note img = question_is_last_user_content[OF key body_with_messages sel world_up_responses oks
      world_up_choices, of messages_image]
  note txq = question_is_last_user_content[OF key body_with_messages sel world_up_responses oks
      world_up_choices, of messages_text]
  have a: "userQuestion_of messages_image = Inr None"
    using img[THEN conjunct1, rule_format,
        of "[user_message (JStr ''2+2?''), assistant_message]" "user_message image_parts" "[]"]
    by (simp add: messages_image_def user_message_def image_parts_def as_string_def)
  from img[THEN conjunct2, THEN conjunct2, THEN conjunct2, rule_format, OF a]
  have b: "\<exists>c. POST world_up ?key (Some (body_with messages_image two_models))
             = ([Generate NVIDIA_MODEL, Generate MISTRAL_MODEL], Json 200 (Completed c))
          \<and> choices_sent c = choices_up \<and> evaluation c = None"
    by (simp add: two_models_called)
  have d: "userQuestion_of messages_text = Inr (Some ''2+2?'')"
    using txq[THEN conjunct1, rule_format,
        of "[]" "user_message (JStr ''2+2?'')" "[assistant_message]"]
    by (simp add: messages_text_def user_message_def assistant_message_def as_string_def
        not_user_def)
  show ?thesis by (rule conjI[OF a conjI[OF b conjI[OF choices_up_answers d]]])
qed

subsection \<open>The candidates the handler passes on\<close>

lemma collect_choices_models:
  "collect_choices brs = Inr rc \<Longrightarrow> c \<in> set (snd rc) \<Longrightarrow>
     \<exists>b \<in> fst ` set brs. own_prop c ''model'' = JStr (modelId b)"
proof (induction brs arbitrary: rc)
  case Nil
  then show ?case by auto
next
  case (Cons br brs)
  obtain b r where br: "br = (b, r)" by (cases br)
  from Cons.prems(1) br obtain data rc' where d: "body_json r = Some data"
    "collect_choices brs = Inr rc'"
    by (auto split: option.splits sum.splits)
  show ?case
  proof (cases "c \<in> set (snd rc')")
    case True
    from Cons.IH[OF d(2) True] show ?thesis by auto
  next
    case False
    with Cons.prems d br have "own_prop c ''model'' = JStr (modelId b)"
      by (cases rc') (auto split: if_splits)
    with br show ?thesis by auto
  qed
qed

lemma answers_of_source:
  assumes "answers_of ser cs = Inr as" and "a \<in> set as"
  shows "\<exists>c \<in> set cs. own_prop c ''model'' = JStr (model a)"
proof -
  from assms have "keep_answers (map (to_answer ser) (enumerate 0 cs)) = Inr as"
    by (simp add: answers_of_def)
  from keep_answers_origin[OF this assms(2)]
  have "Some (index a, model a, Some (content a)) \<in> to_answer ser ` set (enumerate 0 cs)"
    by simp
  then obtain ic where ic: "ic \<in> set (enumerate 0 cs)"
    "to_answer ser ic = Some (index a, model a, Some (content a))"
    by (metis imageE)
  from ic(2) have "own_prop (snd ic) ''model'' = JStr (model a)"
    by (auto simp: to_answer_def split: jsval.splits if_splits)
  moreover have "snd ` set (enumerate 0 cs) = set cs"
    by (metis list.set_map map_snd_enumerate)
  with ic(1) have "snd ic \<in> set cs" by blast
  ultimately show ?thesis by blast
qed

lemma resolve_all_backends: "resolve_all xs = Inr rs \<Longrightarrow> map fst rs = map fst xs"
proof (induction xs arbitrary: rs)
  case Nil
  then show ?case by simp
next
  case (Cons x xs)
  obtain b f where x: "x = (b, f)" by (cases x)
  with Cons.prems obtain r rs' where "f = Resolved r" "resolve_all xs = Inr rs'" "rs = (b, r) # rs'"
    by (cases f) (auto split: sum.splits)
  with Cons.IH x show ?case by simp
qed

text \<open>
  The candidates of every round the handler runs carry ids of the registry, for which
  \<open>Object.entries\<close> keeps the order of creation.
\<close>

lemma handler_candidates_plain:
  assumes "resolve_all (map (\<lambda>b. (b, generation w (modelId b))) (modelsToCall body)) = Inr responses"
    and "collect_choices (filter (\<lambda>br. ok (snd br)) responses) = Inr rc"
    and "answers_of ser (snd rc) = Inr as"
  shows "list_all (\<lambda>a. plain_key (model a)) as"
proof -
  have "plain_key (model a)" if "a \<in> set as" for a
  proof -
    from answers_of_source[OF assms(3) that] obtain c where c: "c \<in> set (snd rc)"
      "own_prop c ''model'' = JStr (model a)" by blast
    from collect_choices_models[OF assms(2) c(1)] c(2)
    obtain b where b: "b \<in> fst ` set responses" "model a = modelId b" by force
    from resolve_all_backends[OF assms(1)] have "fst ` set responses = set (modelsToCall body)"
      by (metis (no_types, lifting) list.set_map map_map comp_def fst_conv map_idI)
    with b(1) modelsToCall_registry have "b \<in> set allModels" by blast
    with registry_plain b(2) show ?thesis by (simp add: list_all_iff)
  qed
  then show ?thesis by (simp add: list_all_iff)
qed

subsection \<open>A message without content, seen from the handler\<close>

text \<open>
  One backend answers with a message that has no content: the round throws, and the
  whole turn is answered 500 although the other backend has answered.
\<close>

lemma missing_content_answers_500:
  "POST world_silent (Some ''key'') (Some (body_with messages_text two_models))
     = ([Generate NVIDIA_MODEL, Generate MISTRAL_MODEL], failed_call)"
proof -
  have r: "resolve_all (map (\<lambda>b. (b, generation world_silent (modelId b)))
             (modelsToCall (body_with messages_text two_models)))
     = Inr [(\<lparr>modelId = NVIDIA_MODEL, label = ''nvidia''\<rparr>,
             \<lparr>ok = True, status = 200, body_text = None, body_json = Some (reply_with ''4'')\<rparr>),
            (\<lparr>modelId = MISTRAL_MODEL, label = ''mistral''\<rparr>,
             \<lparr>ok = True, status = 200, body_text = None, body_json = Some silent_reply\<rparr>)]"
    by (simp add: two_models_called world_silent_def says_def NVIDIA_MODEL_def MISTRAL_MODEL_def)
  have q: "userQuestion_of messages_text = Inr (Some ''2+2?'')"
    using userQuestion_of_last[of "user_message (JStr ''2+2?'')" "[assistant_message]" "[]"]
    by (simp add: messages_text_def user_message_def assistant_message_def as_string_def
        not_user_def)
  have "respond world_silent messages_text
          [(\<lparr>modelId = NVIDIA_MODEL, label = ''nvidia''\<rparr>,
             \<lparr>ok = True, status = 200, body_text = None, body_json = Some (reply_with ''4'')\<rparr>),
            (\<lparr>modelId = MISTRAL_MODEL, label = ''mistral''\<rparr>,
             \<lparr>ok = True, status = 200, body_text = None, body_json = Some silent_reply\<rparr>)]
        = ([], failed_call)"
    by (simp add: respond_def q reply_with_def silent_reply_def runCrossEvaluation_def
        candidate_defs world_silent_def NVIDIA_MODEL_def MISTRAL_MODEL_def)
  with r show ?thesis
    by (simp add: POST_calls body_with_messages two_models_called)
qed

end
